theory Spec2Isabelle
  imports Main "HOL-Library.Char_ord" "HOL-Library.List_Lexorder"
begin

section \<open>REST transcoding of gapic-generator-go (internal/gengapic/genrest.go)\<close>

subsection \<open>Descriptors\<close>

text \<open>
  The protobuf descriptors the generator reads. A Go pointer to a field descriptor is
  compared by address (\<open>field == f\<close> in \<open>contains\<close>), so every field carries its
  address \<open>f_ptr\<close>; the getters of the Go API (\<open>GetName\<close>, \<open>GetType\<close>, ...) are the
  record selectors.
\<close>

datatype FieldType =
    TYPE_DOUBLE | TYPE_FLOAT | TYPE_INT64 | TYPE_UINT64 | TYPE_INT32 | TYPE_FIXED64
  | TYPE_FIXED32 | TYPE_BOOL | TYPE_STRING | TYPE_GROUP | TYPE_MESSAGE | TYPE_BYTES
  | TYPE_UINT32 | TYPE_ENUM | TYPE_SFIXED32 | TYPE_SFIXED64 | TYPE_SINT32 | TYPE_SINT64

datatype FieldLabel = LABEL_OPTIONAL | LABEL_REQUIRED | LABEL_REPEATED

record FieldDescriptorProto =
  f_ptr :: nat
  f_Name :: string
  f_Type :: FieldType
  f_Label :: FieldLabel
  f_TypeName :: string
  f_Proto3Optional :: bool

record DescriptorProto =
  d_Name :: string
  d_Field :: "FieldDescriptorProto list"

text \<open>
  \<open>annotations.HttpRule\<close>: the body selector and the pattern, a oneof of the five verbs
  and a custom pattern, possibly unset.
\<close>

datatype HttpPattern =
    HttpRule_Get string | HttpRule_Put string | HttpRule_Post string
  | HttpRule_Delete string | HttpRule_Patch string | HttpRule_Custom | PatternUnset

record HttpRule =
  r_Body :: string
  r_Pattern :: HttpPattern

text \<open>
  \<open>MethodOptions\<close> with its \<open>google.api.http\<close> extension; \<open>proto.GetExtension\<close> gives a
  nil rule when the extension is not set, whose getters return the zero values.
\<close>

record MethodOptions =
  o_Http :: "HttpRule option"

record MethodDescriptorProto =
  m_Name :: string
  m_InputType :: string
  m_OutputType :: string
  m_Options :: "MethodOptions option"
  m_ClientStreaming :: bool
  m_ServerStreaming :: bool

record ServiceDescriptorProto =
  s_Name :: string

text \<open>
  \<open>pbinfo.ProtoType\<close>: the values of \<open>g.descInfo.Type\<close> are messages, or descriptors of
  another kind, on which the type assertion \<open>.(*descriptor.DescriptorProto)\<close> panics as
  it does on a missing key.
\<close>

datatype ProtoType = MessageType DescriptorProto | OtherType string

datatype error =
    Panic string
  | MethodHasNoHTTPInfo string
  | InvalidUseOfBody string
  | Collaborator string

type_synonym fieldMap = "string \<rightharpoonup> FieldDescriptorProto"

text \<open>
  The text the generator emits. Every call \<open>p(format, args...)\<close> of \<open>g.printf\<close> adds one
  entry \<open>Sprintf format args\<close> to the output; the strings built with \<open>fmt.Sprintf\<close> and
  \<open>strings.Join\<close> along the way are kept as such, with their format and arguments.
\<close>

datatype gotext = Str string | Sprintf string "gotext list" | Join "gotext list" string

record iterType =
  iterTypeName :: string
  elemTypeName :: string

record ImportSpec =
  i_Name :: string
  i_Path :: string

text \<open>
  The generator. \<open>descInfo_Type\<close> is the finite map \<open>g.descInfo.Type\<close> as an association
  list. The other components are the constants and functions of the package that
  genrest.go uses and that are defined in other files; they are parameters of the
  development: the constant \<open>emptyType\<close>; \<open>lookupField\<close> (message name and dotted path to
  field, nil when there is none); \<open>isRequired\<close>; the accessor builders \<open>fieldGetter\<close> and
  \<open>directAccess\<close>; \<open>snakeToCamel\<close>, \<open>lowerFirst\<close> and \<open>upperFirst\<close>; \<open>isLRO\<close>,
  \<open>getPagingFields\<close> and \<open>iterTypeOf\<close>; \<open>g.descInfo.ImportSpec\<close> of the type of a given
  name and of a service; the package of the parent file of the type of a given name;
  \<open>isCustomOp\<close>, \<open>returnType\<close> and \<open>lroTypeName\<close>; \<open>pbinfo.GoTypeForPrim\<close> and
  \<open>isOptional\<close>; and the printers \<open>customOpInit\<close>, \<open>internalFetchSetup\<close>,
  \<open>maybeSortMapPage\<close> (which also returns the expression of the page's elements) and
  \<open>makeFetchAndIterUpdate\<close>, given by the lines they print.
\<close>

record generator =
  descInfo_Type :: "(string \<times> ProtoType) list"
  emptyType :: string
  lookupField :: "string \<Rightarrow> string \<Rightarrow> FieldDescriptorProto option"
  isRequired :: "FieldDescriptorProto \<Rightarrow> bool"
  fieldGetter :: "string \<Rightarrow> string"
  directAccess :: "string \<Rightarrow> string"
  snakeToCamel :: "string \<Rightarrow> string"
  lowerFirst :: "string \<Rightarrow> string"
  upperFirst :: "string \<Rightarrow> string"
  isLRO :: "MethodDescriptorProto \<Rightarrow> bool"
  getPagingFields :: "MethodDescriptorProto \<Rightarrow>
     error + (FieldDescriptorProto \<times> FieldDescriptorProto) option"
  iterTypeOf :: "FieldDescriptorProto \<Rightarrow> error + iterType"
  importSpecType :: "string \<Rightarrow> error + ImportSpec"
  importSpecServ :: "ServiceDescriptorProto \<Rightarrow> error + ImportSpec"
  parentFilePackage :: "string \<Rightarrow> string"
  isCustomOp :: "MethodDescriptorProto \<Rightarrow> bool"
  returnType :: "MethodDescriptorProto \<Rightarrow> string"
  lroTypeName :: "string \<Rightarrow> string"
  goTypeForPrim :: "FieldType \<Rightarrow> string"
  isOptional :: "DescriptorProto \<Rightarrow> string \<Rightarrow> bool"
  customOpInit :: "DescriptorProto \<Rightarrow> MethodDescriptorProto \<Rightarrow> gotext list"
  internalFetchSetup ::
    "DescriptorProto \<Rightarrow> ImportSpec \<Rightarrow> gotext \<Rightarrow> string \<Rightarrow> gotext \<Rightarrow> gotext \<Rightarrow> gotext list"
  maybeSortMapPage :: "FieldDescriptorProto \<Rightarrow> iterType \<Rightarrow> gotext list \<times> string"
  makeFetchAndIterUpdate :: "string \<Rightarrow> gotext list"

text \<open>\<open>g.descInfo.Type[name].(*descriptor.DescriptorProto)\<close>\<close>

definition typeAsMessage :: "(string \<times> ProtoType) list \<Rightarrow> string \<Rightarrow> error + DescriptorProto" where
  "typeAsMessage tys name =
     (case map_of tys name of
        None \<Rightarrow> Inl (Panic ''interface conversion: interface is nil'')
      | Some (OtherType k) \<Rightarrow> Inl (Panic ''interface conversion: not *descriptor.DescriptorProto'')
      | Some (MessageType d) \<Rightarrow> Inr d)"

text \<open>
  \<open>g.descInfo.Type[name].GetName()\<close>, the name of a descriptor of any kind; the call
  panics on the nil interface of a missing key.
\<close>

definition typeGetName :: "(string \<times> ProtoType) list \<Rightarrow> string \<Rightarrow> error + string" where
  "typeGetName tys name =
     (case map_of tys name of
        None \<Rightarrow> Inl (Panic ''invalid memory address or nil pointer dereference'')
      | Some (OtherType k) \<Rightarrow> Inr k
      | Some (MessageType d) \<Rightarrow> Inr (d_Name d))"

subsection \<open>Leaf fields: getLeafs\<close>

text \<open>\<open>strings.Join(elts, sep)\<close>\<close>

fun join :: "string list \<Rightarrow> string \<Rightarrow> string" where
  "join [] sep = []"
| "join [e] sep = e"
| "join (e # e' # elts) sep = e @ sep @ join (e' # elts) sep"

text \<open>
  The closure \<open>contains\<close> of getLeafs: a linear search by pointer equality. The variadic
  \<open>excludedFields\<close> may hold nil (queryParams passes the possibly nil body field), which
  equals no field of a message, so the slice is a list of optional fields.
\<close>

fun contains :: "FieldDescriptorProto option list \<Rightarrow> FieldDescriptorProto \<Rightarrow> bool" where
  "contains [] field = False"
| "contains (f # flds) field =
     (if (case f of None \<Rightarrow> False | Some f' \<Rightarrow> f_ptr field = f_ptr f') then True
      else contains flds field)"

text \<open>The closure \<open>handleLeaf\<close>: the key is the dotted chain of names, stack first.\<close>

definition handleLeaf ::
  "FieldDescriptorProto \<Rightarrow> FieldDescriptorProto list \<Rightarrow> fieldMap \<Rightarrow> fieldMap" where
  "handleLeaf field stack pathsToLeafs =
     (let elts = map f_Name stack @ [f_Name field];
          key = join elts ''.''
      in pathsToLeafs(key \<mapsto> field))"

text \<open>
  The addresses of the fields of every message of \<open>g.descInfo.Type\<close>, and those a walk
  at \<open>stack\<close> over \<open>flds\<close> can still push: the measure of the recursion.
\<close>

definition schemaFields :: "(string \<times> ProtoType) list \<Rightarrow> FieldDescriptorProto list" where
  "schemaFields tys =
     concat (map (\<lambda>(n, t). case t of MessageType d \<Rightarrow> d_Field d | OtherType k \<Rightarrow> []) tys)"

definition unvisited ::
  "generator \<Rightarrow> FieldDescriptorProto list \<Rightarrow> FieldDescriptorProto list \<Rightarrow> nat set" where
  "unvisited g stack flds =
     (f_ptr ` set (schemaFields (descInfo_Type g)) \<union> f_ptr ` set flds) - f_ptr ` set stack"

lemma typeAsMessage_schemaFields:
  "typeAsMessage tys name = Inr d \<Longrightarrow> set (d_Field d) \<subseteq> set (schemaFields tys)"
proof -
  assume a: "typeAsMessage tys name = Inr d"
  then have "map_of tys name = Some (MessageType d)"
    by (auto simp: typeAsMessage_def split: option.splits ProtoType.splits)
  then have "(name, MessageType d) \<in> set tys"
    by (rule map_of_SomeD)
  then show ?thesis
    by (force simp: schemaFields_def)
qed

lemma contains_iff:
  "contains (map Some stack) field \<longleftrightarrow> f_ptr field \<in> f_ptr ` set stack"
  by (induction stack) auto

lemma finite_unvisited: "finite (unvisited g stack flds)"
  by (simp add: unvisited_def)

lemma unvisited_rest:
  "card (unvisited g stack rest) \<le> card (unvisited g stack (field # rest))"
  by (rule card_mono, rule finite_unvisited) (auto simp: unvisited_def)

lemma unvisited_push:
  assumes "\<not> contains (map Some stack) field"
    and "typeAsMessage (descInfo_Type g) name = Inr subMsg"
  shows "card (unvisited g (stack @ [field]) (d_Field subMsg))
           < card (unvisited g stack (field # rest))"
proof (rule psubset_card_mono)
  show "finite (unvisited g stack (field # rest))"
    by (rule finite_unvisited)
  have sub: "f_ptr ` set (d_Field subMsg) \<subseteq> f_ptr ` set (schemaFields (descInfo_Type g))"
    using typeAsMessage_schemaFields [OF assms(2)] by blast
  have notin: "f_ptr field \<notin> f_ptr ` set stack"
    using assms(1) by (simp add: contains_iff)
  have "f_ptr field \<in> unvisited g stack (field # rest)"
    using notin by (simp add: unvisited_def)
  moreover have "f_ptr field \<notin> unvisited g (stack @ [field]) (d_Field subMsg)"
    by (simp add: unvisited_def)
  moreover have "unvisited g (stack @ [field]) (d_Field subMsg)
                   \<subseteq> unvisited g stack (field # rest)"
    using sub by (auto simp: unvisited_def)
  ultimately show "unvisited g (stack @ [field]) (d_Field subMsg)
                     \<subset> unvisited g stack (field # rest)"
    by blast
qed

text \<open>
  The closures \<open>recurse\<close> and \<open>handleMsg\<close>. \<open>recurse\<close> iterates over the fields of the
  message: the fourth argument is the part of \<open>m.GetField()\<close> still to visit, and the
  captured map \<open>pathsToLeafs\<close> is threaded through. \<open>handleMsg\<close> returns early on a
  repeated field, on an excluded field, and on a field already on the stack; otherwise
  it looks the sub-message up (a panic when the type is not a known message) and calls
  \<open>recurse(append(stack, field), subMsg)\<close>.
\<close>

function recurse ::
  "generator \<Rightarrow> FieldDescriptorProto option list \<Rightarrow> FieldDescriptorProto list \<Rightarrow>
   FieldDescriptorProto list \<Rightarrow> fieldMap \<Rightarrow> error + fieldMap" where
  "recurse g excludedFields stack [] pathsToLeafs = Inr pathsToLeafs"
| "recurse g excludedFields stack (field # rest) pathsToLeafs =
     (if f_Type field = TYPE_MESSAGE then
        (if f_Label field = LABEL_REPEATED then
           recurse g excludedFields stack rest pathsToLeafs
         else if contains excludedFields field then
           recurse g excludedFields stack rest pathsToLeafs
         else if contains (map Some stack) field then
           recurse g excludedFields stack rest pathsToLeafs
         else
           (case typeAsMessage (descInfo_Type g) (f_TypeName field) of
              Inl e \<Rightarrow> Inl e
            | Inr subMsg \<Rightarrow>
                (case recurse g excludedFields (stack @ [field]) (d_Field subMsg) pathsToLeafs of
                   Inl e \<Rightarrow> Inl e
                 | Inr pathsToLeafs' \<Rightarrow> recurse g excludedFields stack rest pathsToLeafs')))
      else recurse g excludedFields stack rest (handleLeaf field stack pathsToLeafs))"
  by pat_completeness auto
termination
proof (relation "(\<lambda>(g, ex, stack, flds, acc). card (unvisited g stack flds))
                   <*mlex*> measure (\<lambda>(g, ex, stack, flds, acc). length flds)",
       goal_cases)
  case 1
  show ?case by (simp add: wf_mlex)
next
  case 2
  show ?case by (rule mlex_leq) (simp_all add: unvisited_rest)
next
  case 3
  show ?case by (rule mlex_leq) (simp_all add: unvisited_rest)
next
  case 4
  show ?case by (rule mlex_leq) (simp_all add: unvisited_rest)
next
  case (5 g excludedFields stack field rest pathsToLeafs subMsg)
  then show ?case by (intro mlex_less) (simp add: unvisited_push)
next
  case 6
  show ?case by (rule mlex_leq) (simp_all add: unvisited_rest)
next
  case 7
  show ?case by (rule mlex_leq) (simp_all add: unvisited_rest)
qed

definition getLeafs ::
  "generator \<Rightarrow> DescriptorProto \<Rightarrow> FieldDescriptorProto option list \<Rightarrow> error + fieldMap" where
  "getLeafs g msg excludedFields = recurse g excludedFields [] (d_Field msg) Map.empty"

subsection \<open>HTTP binding: getHTTPInfo\<close>

record httpInfo =
  h_verb :: string
  h_url :: string
  h_body :: string

text \<open>
  \<open>getHTTPInfo\<close> is nil exactly when the method has no options (the method itself is
  never nil here). With options, the rule
  of the extension is read (a nil rule has an empty body and no pattern) and the verb
  and URL are set by the pattern; a custom or unset pattern leaves both empty.
\<close>

definition getHTTPInfo :: "MethodDescriptorProto \<Rightarrow> httpInfo option" where
  "getHTTPInfo m =
     (case m_Options m of
        None \<Rightarrow> None
      | Some opts \<Rightarrow>
          (let httpRule = o_Http opts;
               info = \<lparr>h_verb = [], h_url = [],
                       h_body = (case httpRule of None \<Rightarrow> [] | Some r \<Rightarrow> r_Body r)\<rparr>
           in Some
             (case (case httpRule of None \<Rightarrow> PatternUnset | Some r \<Rightarrow> r_Pattern r) of
                HttpRule_Get u \<Rightarrow> info\<lparr>h_verb := ''get'', h_url := u\<rparr>
              | HttpRule_Post u \<Rightarrow> info\<lparr>h_verb := ''post'', h_url := u\<rparr>
              | HttpRule_Patch u \<Rightarrow> info\<lparr>h_verb := ''patch'', h_url := u\<rparr>
              | HttpRule_Put u \<Rightarrow> info\<lparr>h_verb := ''put'', h_url := u\<rparr>
              | HttpRule_Delete u \<Rightarrow> info\<lparr>h_verb := ''delete'', h_url := u\<rparr>
              | HttpRule_Custom \<Rightarrow> info
              | PatternUnset \<Rightarrow> info)))"

subsection \<open>Path parameters: pathParams\<close>

text \<open>
  \<open>regexp.MustCompile("{([^}]+)}").FindAllStringSubmatch(s, -1)\<close>, keeping of each match
  its group 1. The matches are leftmost and do not overlap: at an opening brace, the
  group is the run of characters up to the next closing brace, which must exist and the
  run be non-empty; otherwise the search goes on at the next character.
\<close>

function findAllBraced :: "string \<Rightarrow> string list" where
  "findAllBraced [] = []"
| "findAllBraced (c # s) =
     (if c = CHR ''{'' then
        (let grp = takeWhile (\<lambda>x. x \<noteq> CHR ''}'') s;
             after = dropWhile (\<lambda>x. x \<noteq> CHR ''}'') s
         in if grp \<noteq> [] \<and> after \<noteq> [] then grp # findAllBraced (tl after)
            else findAllBraced s)
      else findAllBraced s)"
  by pat_completeness auto
termination
proof (relation "measure length", goal_cases)
  case 1
  show ?case by simp
next
  case (2 c s grp after)
  have "length (tl (dropWhile (\<lambda>x. x \<noteq> CHR ''}'') s)) \<le> length s"
    using length_dropWhile_le [of "\<lambda>x. x \<noteq> CHR ''}''" s] by simp
  with 2 show ?case by simp
next
  case 3
  show ?case by simp
next
  case 4
  show ?case by simp
qed

text \<open>The loop of pathParams over the matches: an unresolved parameter is skipped.\<close>

fun pathParams_loop ::
  "generator \<Rightarrow> string \<Rightarrow> string list \<Rightarrow> fieldMap \<Rightarrow> fieldMap" where
  "pathParams_loop g inputType [] pathParams = pathParams"
| "pathParams_loop g inputType (param # ps) pathParams =
     (case lookupField g inputType param of
        None \<Rightarrow> pathParams_loop g inputType ps pathParams
      | Some field \<Rightarrow> pathParams_loop g inputType ps (pathParams(param \<mapsto> field)))"

definition pathParams :: "generator \<Rightarrow> MethodDescriptorProto \<Rightarrow> fieldMap" where
  "pathParams g m =
     (case getHTTPInfo m of
        None \<Rightarrow> Map.empty
      | Some info \<Rightarrow> pathParams_loop g (m_InputType m) (findAllBraced (h_url info)) Map.empty)"

subsection \<open>Query parameters: queryParams\<close>

text \<open>\<open>&descriptor.FieldDescriptorProto{}\<close>: a fresh field with the zero values.\<close>

definition emptyField :: FieldDescriptorProto where
  "emptyField = \<lparr>f_ptr = 0, f_Name = [], f_Type = TYPE_DOUBLE, f_Label = LABEL_OPTIONAL,
                  f_TypeName = [], f_Proto3Optional = False\<rparr>"

text \<open>
  The loop of queryParams over the entries of \<open>pathToLeaf\<close> fills a fresh map with the
  entries that pass the test; the order of the entries does not matter to it.
\<close>

definition queryParams_loop ::
  "generator \<Rightarrow> DescriptorProto \<Rightarrow> fieldMap \<Rightarrow> fieldMap \<Rightarrow> fieldMap" where
  "queryParams_loop g request pathParams' pathToLeaf =
     (\<lambda>path. case pathToLeaf path of
        None \<Rightarrow> None
      | Some leaf \<Rightarrow>
          if pathParams' path = None \<and> lookupField g (d_Name request) (f_Name leaf) = None
          then Some leaf else None)"

definition queryParams :: "generator \<Rightarrow> MethodDescriptorProto \<Rightarrow> error + fieldMap" where
  "queryParams g m =
     (case getHTTPInfo m of
        None \<Rightarrow> Inr Map.empty
      | Some info \<Rightarrow>
          if h_body info = ''*'' then Inr Map.empty
          else
            (let pathParams' = (pathParams g m)(h_body info \<mapsto> emptyField) in
             case typeAsMessage (descInfo_Type g) (m_InputType m) of
               Inl e \<Rightarrow> Inl e
             | Inr request \<Rightarrow>
                 (let bodyField = lookupField g (m_InputType m) (h_body info) in
                  case getLeafs g request [bodyField] of
                    Inl e \<Rightarrow> Inl e
                  | Inr pathToLeaf \<Rightarrow> Inr (queryParams_loop g request pathParams' pathToLeaf))))"

subsection \<open>Query string: generateQueryString\<close>

text \<open>\<open>strings.Split(s, sep)\<close> for a separator of one character.\<close>

fun strings_Split :: "string \<Rightarrow> char \<Rightarrow> string list" where
  "strings_Split [] sep = [ [] ]"
| "strings_Split (c # s) sep =
     (if c = sep then [] # strings_Split s sep
      else (case strings_Split s sep of
              [] \<Rightarrow> [ [c] ]
            | t # ts \<Rightarrow> (c # t) # ts))"

text \<open>
  The body of the loop of generateQueryString for one path and its field: the lines
  printed for the parameter. A required, singular field that is neither a message nor
  bytes is added with no guard. Otherwise the addition is wrapped in a guard: a nil
  check for a repeated field, else a presence check for a proto3 optional field, else a
  check against the zero value of the type.
\<close>

definition queryParamLines ::
  "generator \<Rightarrow> string \<Rightarrow> FieldDescriptorProto \<Rightarrow> gotext list" where
  \<open>queryParamLines g path field =
     (let required = isRequired g field;
          accessor = fieldGetter g path;
          singularPrimitive =
            (f_Type field \<noteq> TYPE_MESSAGE \<and> f_Type field \<noteq> TYPE_BYTES \<and>
             f_Label field \<noteq> LABEL_REPEATED);
          paramAdd = Sprintf ''params.Add(%q, fmt.Sprintf(%q, req%s))''
                       [Str (lowerFirst g (snakeToCamel g path)), Str ''%v'', Str accessor]
      in if required \<and> singularPrimitive then [Sprintf ''%s'' [paramAdd]]
         else
           [if f_Label field = LABEL_REPEATED then Sprintf ''if req%s != nil {'' [Str accessor]
            else if f_Proto3Optional field then
              (let toks = strings_Split path CHR ''.'';
                   toks' = butlast toks;
                   parentField = fieldGetter g (join toks' ''.'');
                   directLeafField = directAccess g path
               in Sprintf ''if req%s != nil && req%s != nil {''
                    [Str parentField, Str directLeafField])
            else
              (case f_Type field of
                 TYPE_MESSAGE \<Rightarrow> Sprintf ''if req%s != nil {'' [Str accessor]
               | TYPE_BYTES \<Rightarrow> Sprintf ''if req%s != nil {'' [Str accessor]
               | TYPE_STRING \<Rightarrow> Sprintf ''if req%s != "" {'' [Str accessor]
               | TYPE_BOOL \<Rightarrow> Sprintf ''if req%s {'' [Str accessor]
               | _ \<Rightarrow> Sprintf ''if req%s != 0 {'' [Str accessor]),
            Sprintf ''    %s'' [paramAdd],
            Sprintf ''}'' []])\<close>

text \<open>
  generateQueryString. The keys of the map are collected with \<open>for p := range
  queryParams\<close>, in an order the Go runtime does not specify: \<open>keysOf\<close> is that order,
  any enumeration of the keys, and \<open>len(queryParams)\<close> is its length. The keys are then
  sorted with \<open>sort.Strings\<close>, the order of strings by bytes. A panic of queryParams
  passes through.
\<close>

definition generateQueryString ::
  "generator \<Rightarrow> (fieldMap \<Rightarrow> string list) \<Rightarrow> MethodDescriptorProto \<Rightarrow> error + gotext list" where
  \<open>generateQueryString g keysOf m =
     (case queryParams g m of
        Inl e \<Rightarrow> Inl e
      | Inr queryParams' \<Rightarrow>
          (let keys = keysOf queryParams' in
           if length keys = 0 then Inr []
           else
             (let flds = sort keys in
              Inr ([Sprintf ''params := url.Values{}'' []] @
                   concat (map (\<lambda>path. queryParamLines g path
                                  (case queryParams' path of None \<Rightarrow> emptyField | Some field \<Rightarrow> field))
                             flds) @
                   [Sprintf [] [], Sprintf ''baseUrl.RawQuery = params.Encode()'' [],
                    Sprintf [] []]))))\<close>

subsection \<open>URL: generateURLString\<close>

text \<open>
  The regular expression \<open>{([a-zA-Z0-9_.]+?)(=[^{}]+)?}\<close>. \<open>matchVar t\<close> matches it on the
  text after an opening brace and gives group 1 and the text after the closing brace:
  group 1 is the whole run of name characters (the character after it must be \<open>=\<close> or
  the closing brace, neither of which is a name character), and the optional group 2 is
  \<open>=\<close> with the non-empty run of characters other than braces, which the closing brace
  must follow.
\<close>

definition isVarChar :: "char \<Rightarrow> bool" where
  "isVarChar c =
     ((CHR ''a'' \<le> c \<and> c \<le> CHR ''z'') \<or> (CHR ''A'' \<le> c \<and> c \<le> CHR ''Z'') \<or>
      (CHR ''0'' \<le> c \<and> c \<le> CHR ''9'') \<or> c = CHR ''_'' \<or> c = CHR ''.'')"

definition matchVar :: "string \<Rightarrow> (string \<times> string) option" where
  "matchVar t =
     (let name = takeWhile isVarChar t;
          r1 = dropWhile isVarChar t
      in if name = [] then None
         else
           (case r1 of
              [] \<Rightarrow> None
            | c # r2 \<Rightarrow>
                if c = CHR ''}'' then Some (name, r2)
                else if c = CHR ''='' then
                  (let pat = takeWhile (\<lambda>x. x \<noteq> CHR ''{'' \<and> x \<noteq> CHR ''}'') r2;
                       r3 = dropWhile (\<lambda>x. x \<noteq> CHR ''{'' \<and> x \<noteq> CHR ''}'') r2
                   in if pat = [] then None
                      else
                        (case r3 of
                           [] \<Rightarrow> None
                         | d # r4 \<Rightarrow> if d = CHR ''}'' then Some (name, r4) else None))
                else None))"

lemma matchVar_shorter: "matchVar t = Some (name, rest) \<Longrightarrow> length rest < Suc (length t)"
proof -
  assume a: "matchVar t = Some (name, rest)"
  have d1: "length (dropWhile isVarChar t) \<le> length t"
    by (rule length_dropWhile_le)
  show ?thesis
  proof (cases "dropWhile isVarChar t")
    case Nil
    with a show ?thesis by (simp add: matchVar_def Let_def split: if_splits)
  next
    case (Cons c r2)
    have d2: "length (dropWhile (\<lambda>x. x \<noteq> CHR ''{'' \<and> x \<noteq> CHR ''}'') r2) \<le> length r2"
      by (rule length_dropWhile_le)
    from Cons d1 have l2: "length r2 < length t" by simp
    from a Cons d2 l2 show ?thesis
      by (auto simp: matchVar_def Let_def split: if_splits list.splits)
  qed
qed

text \<open>
  \<open>re.ReplaceAllStringFunc(url, func(s string) string { return "%v" })\<close> and the groups 1
  of \<open>re.FindAllStringSubmatch(url, -1)\<close>: the matches are leftmost and do not overlap.
\<close>

function replaceAllVars :: "string \<Rightarrow> string" where
  "replaceAllVars [] = []"
| "replaceAllVars (c # s) =
     (if c = CHR ''{'' then
        (case matchVar s of
           None \<Rightarrow> c # replaceAllVars s
         | Some (name, rest) \<Rightarrow> ''%v'' @ replaceAllVars rest)
      else c # replaceAllVars s)"
  by pat_completeness auto
termination
  by (relation "measure length") (auto dest: matchVar_shorter)

function findAllVars :: "string \<Rightarrow> string list" where
  "findAllVars [] = []"
| "findAllVars (c # s) =
     (if c = CHR ''{'' then
        (case matchVar s of
           None \<Rightarrow> findAllVars s
         | Some (name, rest) \<Rightarrow> name # findAllVars rest)
      else findAllVars s)"
  by pat_completeness auto
termination
  by (relation "measure length") (auto dest: matchVar_shorter)

definition generateURLString :: "generator \<Rightarrow> MethodDescriptorProto \<Rightarrow> error + gotext list" where
  \<open>generateURLString g m =
     (case getHTTPInfo m of
        None \<Rightarrow> Inl (MethodHasNoHTTPInfo (m_Name m))
      | Some info \<Rightarrow>
          (let fmtStr = replaceAllVars (h_url info);
               tokens = Sprintf ''"%s"'' [Str fmtStr] #
                        map (\<lambda>path. Sprintf ''req%s'' [Str (fieldGetter g path)])
                          (findAllVars (h_url info))
           in Inr [Sprintf ''baseUrl, _ := url.Parse(c.endpoint)'' [],
                   Sprintf ''baseUrl.Path += fmt.Sprintf(%s)'' [Join tokens '', ''],
                   Sprintf [] []]))\<close>

subsection \<open>Call synthesis\<close>

text \<open>
  What a synthesizer leaves behind: the lines it printed to \<open>g.pt\<close>, the entries it added
  to \<open>g.imports\<close> and to \<open>g.aux.lros\<close>, and the error it returned (a panic included), if
  any. Lines printed before an error stay printed.
\<close>

record outcome =
  printed :: "gotext list"
  imported :: "ImportSpec list"
  lros :: "MethodDescriptorProto list"
  failure :: "error option"

definition ok :: "gotext list \<Rightarrow> ImportSpec list \<Rightarrow> outcome" where
  "ok ls imps = \<lparr>printed = ls, imported = imps, lros = [], failure = None\<rparr>"

definition failed :: "gotext list \<Rightarrow> ImportSpec list \<Rightarrow> error \<Rightarrow> outcome" where
  "failed ls imps e = \<lparr>printed = ls, imported = imps, lros = [], failure = Some e\<rparr>"

text \<open>\<open>pbinfo.ImportSpec{Path: path}\<close>\<close>

definition importPath :: "string \<Rightarrow> ImportSpec" where
  "importPath path = \<lparr>i_Name = [], i_Path = path\<rparr>"

definition lowcaseRestClientName :: "generator \<Rightarrow> string \<Rightarrow> string" where
  "lowcaseRestClientName g servName =
     (if servName = [] then ''restClient'' else lowerFirst g (servName @ ''RESTClient''))"

text \<open>\<open>strings.ToUpper\<close> on the ASCII letters, all that a verb of getHTTPInfo holds.\<close>

definition strings_ToUpper :: "string \<Rightarrow> string" where
  "strings_ToUpper s =
     map (\<lambda>c. case map_of (zip ''abcdefghijklmnopqrstuvwxyz'' ''ABCDEFGHIJKLMNOPQRSTUVWXYZ'') c of
                 None \<Rightarrow> c
               | Some u \<Rightarrow> u) s"

definition serverStreamRESTCall ::
  "generator \<Rightarrow> string \<Rightarrow> ServiceDescriptorProto \<Rightarrow> MethodDescriptorProto \<Rightarrow> outcome" where
  \<open>serverStreamRESTCall g servName s m =
     (case importSpecType g (m_InputType m) of
        Inl e \<Rightarrow> failed [] [] e
      | Inr inSpec \<Rightarrow>
          (case importSpecServ g s of
             Inl e \<Rightarrow> failed [] [inSpec] e
           | Inr servSpec \<Rightarrow>
               (let lowcaseServName = lowcaseRestClientName g servName in
                case typeGetName (descInfo_Type g) (m_InputType m) of
                  Inl e \<Rightarrow> failed [] [inSpec, servSpec] e
                | Inr inTypeName \<Rightarrow>
                    ok [
                      Sprintf ''func (c *%s) %s(ctx context.Context, req *%s.%s, opts ...gax.CallOption) (%s.%s_%sClient, error) {'' [Str lowcaseServName, Str (m_Name m), Str (i_Name inSpec), Str inTypeName, Str (i_Name servSpec), Str (s_Name s), Str (m_Name m)],
                      Sprintf ''  return nil, fmt.Errorf("%s not yet supported for REST clients")'' [Str (m_Name m)],
                      Sprintf ''}'' [],
                      Sprintf [] []]
                      [inSpec, servSpec])))\<close>

definition noRequestStreamRESTCall ::
  "generator \<Rightarrow> string \<Rightarrow> ServiceDescriptorProto \<Rightarrow> MethodDescriptorProto \<Rightarrow> outcome" where
  \<open>noRequestStreamRESTCall g servName s m =
     (case importSpecServ g s of
        Inl e \<Rightarrow> failed [] [] e
      | Inr servSpec \<Rightarrow>
          (let lowcaseServName = lowcaseRestClientName g servName in
           ok [
             Sprintf ''func (c *%s) %s(ctx context.Context, opts ...gax.CallOption) (%s.%s_%sClient, error) {'' [Str lowcaseServName, Str (m_Name m), Str (i_Name servSpec), Str (s_Name s), Str (m_Name m)],
             Sprintf ''  return nil, fmt.Errorf("%s not yet supported for REST clients")'' [Str (m_Name m)],
             Sprintf ''}'' [],
             Sprintf [] []]
             [servSpec]))\<close>

definition lroRESTCall :: "generator \<Rightarrow> string \<Rightarrow> MethodDescriptorProto \<Rightarrow> outcome" where
  \<open>lroRESTCall g servName m =
     (let lowcaseServName = lowcaseRestClientName g servName in
      case typeAsMessage (descInfo_Type g) (m_InputType m) of
        Inl e \<Rightarrow> failed [] [] e
      | Inr inType \<Rightarrow>
          (case importSpecType g (m_InputType m) of
             Inl e \<Rightarrow> failed [] [] e
           | Inr inSpec \<Rightarrow>
               (let lroType = lroTypeName g (m_Name m);
                    inTypeName = d_Name inType
                in ok [
                     Sprintf ''func (c *%s) %s(ctx context.Context, req *%s.%s, opts ...gax.CallOption) (*%s, error) {'' [Str lowcaseServName, Str (m_Name m), Str (i_Name inSpec), Str inTypeName, Str lroType],
                     Sprintf ''    return nil, fmt.Errorf("%s not yet supported for REST clients")'' [Str (m_Name m)],
                     Sprintf ''}'' [],
                     Sprintf [] []]
                     [importPath ''cloud.google.com/go/longrunning''])))\<close>

text \<open>
  emptyUnaryRESTCall and unaryRESTCall. The error of generateURLString is dropped by
  both (the binding was checked at the start); a panic of generateQueryString passes
  through.
\<close>

definition emptyUnaryRESTCall ::
  "generator \<Rightarrow> (fieldMap \<Rightarrow> string list) \<Rightarrow> string \<Rightarrow> MethodDescriptorProto \<Rightarrow> outcome" where
  \<open>emptyUnaryRESTCall g keysOf servName m =
     (case getHTTPInfo m of
        None \<Rightarrow> failed [] [] (MethodHasNoHTTPInfo (m_Name m))
      | Some info \<Rightarrow>
          (case importSpecType g (m_InputType m) of
             Inl e \<Rightarrow> failed [] [] e
           | Inr inSpec \<Rightarrow>
               (let lowcaseServName = lowcaseRestClientName g servName in
                case typeGetName (descInfo_Type g) (m_InputType m) of
                  Inl e \<Rightarrow> failed [] [] e
                | Inr inTypeName \<Rightarrow>
                    (let sig = [
                           Sprintf ''func (c *%s) %s(ctx context.Context, req *%s.%s, opts ...gax.CallOption) error {'' [Str lowcaseServName, Str (m_Name m), Str (i_Name inSpec), Str inTypeName]];
                         verb = strings_ToUpper (h_verb info)
                     in if h_body info \<noteq> [] \<and> (verb = ''GET'' \<or> verb = ''DELETE'') then
                          failed sig [] (InvalidUseOfBody (m_Name m))
                        else
                          (let requestObject = (if h_body info \<noteq> ''*'' then ''body'' else ''req'');
                               marshal =
                                 (if h_body info \<noteq> [] then
                                    [
                                     Sprintf ''m := protojson.MarshalOptions{AllowPartial: true, UseProtoNames: false}'' []] @
                                    (if h_body info \<noteq> ''*'' then [
                                       Sprintf ''body := req%s'' [Str (fieldGetter g (h_body info))]] else []) @
                                    [
                                     Sprintf ''jsonReq, err := m.Marshal(%s)'' [Str requestObject],
                                     Sprintf ''if err != nil {'' [],
                                     Sprintf ''  return err'' [],
                                     Sprintf ''}'' [],
                                     Sprintf [] []]
                                  else []);
                               body = (if h_body info \<noteq> [] then ''bytes.NewReader(jsonReq)''
                                       else ''nil'');
                               imps = (if h_body info \<noteq> [] then
                                         [importPath ''bytes'',
                                          importPath ''google.golang.org/protobuf/encoding/protojson'']
                                       else []);
                               urlLines = (case generateURLString g m of
                                             Inl e \<Rightarrow> [] | Inr ls \<Rightarrow> ls)
                           in case generateQueryString g keysOf m of
                                Inl e \<Rightarrow> failed (sig @ marshal @ urlLines) imps e
                              | Inr queryLines \<Rightarrow>
                                  ok (sig @ marshal @ urlLines @ queryLines @ [
                                        Sprintf ''// Build HTTP headers from client and context metadata.'' [],
                                        Sprintf ''headers := buildHeaders(ctx, c.xGoogMetadata, metadata.Pairs("Content-Type", "application/json"))'' [],
                                        Sprintf ''return gax.Invoke(ctx, func(ctx context.Context, settings gax.CallSettings) error {'' [],
                                        Sprintf ''  httpReq, err := http.NewRequest("%s", baseUrl.String(), %s)'' [Str verb, Str body],
                                        Sprintf ''  if err != nil {'' [],
                                        Sprintf ''      return err'' [],
                                        Sprintf ''  }'' [],
                                        Sprintf ''  httpReq = httpReq.WithContext(ctx)'' [],
                                        Sprintf ''  httpReq.Header = headers'' [],
                                        Sprintf [] [],
                                        Sprintf ''  httpRsp, err := c.httpClient.Do(httpReq)'' [],
                                        Sprintf ''  if err != nil{'' [],
                                        Sprintf ''   return err'' [],
                                        Sprintf ''  }'' [],
                                        Sprintf ''  defer httpRsp.Body.Close()'' [],
                                        Sprintf [] [],
                                        Sprintf ''  // Returns nil if there is no error, otherwise wraps'' [],
                                        Sprintf ''  // the response code and body into a non-nil error'' [],
                                        Sprintf ''  return googleapi.CheckResponse(httpRsp)'' [],
                                        Sprintf ''  }, opts...)'' [],
                                        Sprintf ''}'' []])
                                     (imps @ [importPath ''google.golang.org/api/googleapi'',
                                              inSpec]))))))\<close>

text \<open>
  In unaryRESTCall the last statement is printed by \<open>p(ret)\<close>, with \<open>ret\<close> as the format:
  \<open>return resp, nil\<close>, or \<open>fmt.Sprintf("return %s, nil", "op")\<close> for a custom operation,
  whose initialisation needs the input type as a message.
\<close>

definition unaryRESTCall ::
  "generator \<Rightarrow> (fieldMap \<Rightarrow> string list) \<Rightarrow> string \<Rightarrow> MethodDescriptorProto \<Rightarrow> outcome" where
  \<open>unaryRESTCall g keysOf servName m =
     (case getHTTPInfo m of
        None \<Rightarrow> failed [] [] (MethodHasNoHTTPInfo (m_Name m))
      | Some info \<Rightarrow>
          (case importSpecType g (m_InputType m) of
             Inl e \<Rightarrow> failed [] [] e
           | Inr inSpec \<Rightarrow>
          (case importSpecType g (m_OutputType m) of
             Inl e \<Rightarrow> failed [] [] e
           | Inr outSpec \<Rightarrow>
          (case typeGetName (descInfo_Type g) (m_OutputType m) of
             Inl e \<Rightarrow> failed [] [] e
           | Inr outTypeName \<Rightarrow>
               (let outFqn = parentFilePackage g (m_OutputType m) @ ''.'' @ outTypeName;
                    isHTTPBodyMessage = (outFqn = ''google.api.HttpBody'');
                    retTyp = returnType g m;
                    isCustomOp' = isCustomOp g m;
                    lowcaseServName = lowcaseRestClientName g servName
                in case typeGetName (descInfo_Type g) (m_InputType m) of
                  Inl e \<Rightarrow> failed [] [] e
                | Inr inTypeName \<Rightarrow>
                    (let sig = [
                           Sprintf ''func (c *%s) %s(ctx context.Context, req *%s.%s, opts ...gax.CallOption) (%s, error) {'' [Str lowcaseServName, Str (m_Name m), Str (i_Name inSpec), Str inTypeName, Str retTyp]];
                         verb = strings_ToUpper (h_verb info)
                     in if h_body info \<noteq> [] \<and> (verb = ''GET'' \<or> verb = ''DELETE'') then
                          failed sig [] (InvalidUseOfBody (m_Name m))
                        else
                          (let requestObject = (if h_body info \<noteq> ''*'' then ''body'' else ''req'');
                               marshal =
                                 (if h_body info \<noteq> [] then
                                    [
                                     Sprintf ''m := protojson.MarshalOptions{AllowPartial: true}'' []] @
                                    (if h_body info \<noteq> ''*'' then [
                                       Sprintf ''body := req%s'' [Str (fieldGetter g (h_body info))]] else []) @
                                    [
                                     Sprintf ''jsonReq, err := m.Marshal(%s)'' [Str requestObject],
                                     Sprintf ''if err != nil {'' [],
                                     Sprintf ''  return nil, err'' [],
                                     Sprintf ''}'' [],
                                     Sprintf [] []]
                                  else []);
                               body = (if h_body info \<noteq> [] then ''bytes.NewReader(jsonReq)''
                                       else ''nil'');
                               imps = (if h_body info \<noteq> [] then [importPath ''bytes''] else []);
                               urlLines = (case generateURLString g m of
                                             Inl e \<Rightarrow> [] | Inr ls \<Rightarrow> ls)
                           in case generateQueryString g keysOf m of
                                Inl e \<Rightarrow> failed (sig @ marshal @ urlLines) imps e
                              | Inr queryLines \<Rightarrow>
                                  (let call =
                                     sig @ marshal @ urlLines @ queryLines @ [
                                       Sprintf ''// Build HTTP headers from client and context metadata.'' [],
                                       Sprintf ''headers := buildHeaders(ctx, c.xGoogMetadata, metadata.Pairs("Content-Type", "application/json"))'' []] @
                                     (if \<not> isHTTPBodyMessage then [
                                        Sprintf ''unm := protojson.UnmarshalOptions{AllowPartial: true, DiscardUnknown: true}'' []] else []) @ [
                                       Sprintf ''resp := &%s.%s{}'' [Str (i_Name outSpec), Str outTypeName],
                                       Sprintf ''e := gax.Invoke(ctx, func(ctx context.Context, settings gax.CallSettings) error {'' [],
                                       Sprintf ''  httpReq, err := http.NewRequest("%s", baseUrl.String(), %s)'' [Str verb, Str body],
                                       Sprintf ''  if err != nil {'' [],
                                       Sprintf ''      return err'' [],
                                       Sprintf ''  }'' [],
                                       Sprintf ''  httpReq = httpReq.WithContext(ctx)'' [],
                                       Sprintf ''  httpReq.Header = headers'' [],
                                       Sprintf [] [],
                                       Sprintf ''  httpRsp, err := c.httpClient.Do(httpReq)'' [],
                                       Sprintf ''  if err != nil{'' [],
                                       Sprintf ''   return err'' [],
                                       Sprintf ''  }'' [],
                                       Sprintf ''  defer httpRsp.Body.Close()'' [],
                                       Sprintf [] [],
                                       Sprintf ''  if err = googleapi.CheckResponse(httpRsp); err != nil {'' [],
                                       Sprintf ''    return err'' [],
                                       Sprintf ''  }'' [],
                                       Sprintf [] [],
                                       Sprintf ''  buf, err := ioutil.ReadAll(httpRsp.Body)'' [],
                                       Sprintf ''  if err != nil {'' [],
                                       Sprintf ''    return err'' [],
                                       Sprintf ''  }'' [],
                                       Sprintf [] []] @
                                     (if isHTTPBodyMessage then [
                                        Sprintf ''resp.Data = buf'' [],
                                        Sprintf ''if headers := httpRsp.Header; len(headers["Content-Type"]) > 0 {'' [],
                                        Sprintf ''  resp.ContentType = headers["Content-Type"][0]'' [],
                                        Sprintf ''}'' []]
                                      else [
                                        Sprintf ''if err := unm.Unmarshal(buf, resp); err != nil {'' [],
                                        Sprintf ''  return maybeUnknownEnum(err)'' [],
                                        Sprintf ''}'' [],
                                        Sprintf [] [],
                                        Sprintf ''return nil'' []]) @ [
                                       Sprintf ''}, opts...)'' [],
                                       Sprintf ''if e != nil {'' [],
                                       Sprintf ''  return nil, e'' [],
                                       Sprintf ''}'' []]
                                   in if isCustomOp' then
                                        (case typeAsMessage (descInfo_Type g) (m_InputType m) of
                                           Inl e \<Rightarrow> failed call imps e
                                         | Inr inType \<Rightarrow>
                                             ok (call @ customOpInit g inType m @
                                                 [Sprintf ''return op, nil'' [],
                                                  Sprintf ''}'' []])
                                                (imps @
                                                 [importPath ''google.golang.org/api/googleapi'',
                                                  importPath ''google.golang.org/protobuf/encoding/protojson'',
                                                  inSpec, outSpec]))
                                      else
                                        ok (call @
                                            [Sprintf ''return resp, nil'' [],
                                             Sprintf ''}'' []])
                                           (imps @
                                            [importPath ''google.golang.org/api/googleapi'',
                                             importPath ''google.golang.org/protobuf/encoding/protojson'',
                                             inSpec, outSpec])))))))))\<close>

text \<open>
  pagingRESTCall. It marshals the request when there is a body selector, whatever the
  verb.
\<close>

definition pagingRESTCall ::
  "generator \<Rightarrow> (fieldMap \<Rightarrow> string list) \<Rightarrow> string \<Rightarrow> MethodDescriptorProto \<Rightarrow>
   FieldDescriptorProto \<Rightarrow> FieldDescriptorProto \<Rightarrow> iterType \<Rightarrow> outcome" where
  \<open>pagingRESTCall g keysOf servName m elemField pageSize pt =
     (let lowcaseServName = lowcaseRestClientName g servName in
      case typeAsMessage (descInfo_Type g) (m_InputType m) of
        Inl e \<Rightarrow> failed [] [] e
      | Inr inType \<Rightarrow>
      (case typeAsMessage (descInfo_Type g) (m_OutputType m) of
        Inl e \<Rightarrow> failed [] [] e
      | Inr outType \<Rightarrow>
      (case importSpecType g (m_InputType m) of
        Inl e \<Rightarrow> failed [] [] e
      | Inr inSpec \<Rightarrow>
      (case importSpecType g (m_OutputType m) of
        Inl e \<Rightarrow> failed [] [] e
      | Inr outSpec \<Rightarrow>
      (case getHTTPInfo m of
        None \<Rightarrow> failed [] [] (MethodHasNoHTTPInfo (m_Name m))
      | Some info \<Rightarrow>
          (let verb = strings_ToUpper (h_verb info);
               inTypeName = d_Name inType;
               psTyp = goTypeForPrim g (f_Type pageSize);
               opt = isOptional g inType (f_Name pageSize);
               maxv = (if opt then Sprintf ''proto.%s(%s)''
                                     [Str (upperFirst g psTyp), Str ''math.MaxInt32'']
                       else Str ''math.MaxInt32'');
               ps = (if opt then Sprintf ''proto.%s(%s)''
                                   [Str (upperFirst g psTyp), Sprintf ''%s(pageSize)'' [Str psTyp]]
                     else Sprintf ''%s(pageSize)'' [Str psTyp]);
               tok = (if isOptional g inType ''page_token''
                      then Sprintf ''proto.String(%s)'' [Str ''pageToken'']
                      else Str ''pageToken'');
               pageSizeFieldName = snakeToCamel g (f_Name pageSize);
               maybeReqBytes = (if h_body info \<noteq> [] then ''bytes.NewReader(jsonReq)''
                                else ''nil'');
               imps = importPath ''math'' #
                      (if h_body info \<noteq> [] then [importPath ''bytes''] else []);
               head = [
                   Sprintf ''func (c *%s) %s(ctx context.Context, req *%s.%s, opts ...gax.CallOption) *%s {'' [Str lowcaseServName, Str (m_Name m), Str (i_Name inSpec), Str inTypeName, Str (iterTypeName pt)],
                   Sprintf ''it := &%s{}'' [Str (iterTypeName pt)],
                   Sprintf ''req = proto.Clone(req).(*%s.%s)'' [Str (i_Name inSpec), Str inTypeName]] @
                 (if h_body info \<noteq> [] then [
                    Sprintf ''m := protojson.MarshalOptions{AllowPartial: true, UseProtoNames: false}'' []] else []) @ [
                   Sprintf ''unm := protojson.UnmarshalOptions{AllowPartial: true, DiscardUnknown: true}'' [],
                   Sprintf ''it.InternalFetch = func(pageSize int, pageToken string) ([]%s, string, error) {'' [Str (elemTypeName pt)]] @
                 internalFetchSetup g outType outSpec tok pageSizeFieldName maxv ps @
                 (if h_body info \<noteq> [] then [
                    Sprintf ''  jsonReq, err := m.Marshal(req)'' [],
                    Sprintf ''  if err != nil {'' [],
                    Sprintf ''    return nil, "", err'' [],
                    Sprintf ''  }'' [],
                    Sprintf [] []] else []) @
                 (case generateURLString g m of Inl e \<Rightarrow> [] | Inr ls \<Rightarrow> ls)
           in case generateQueryString g keysOf m of
                Inl e \<Rightarrow> failed head imps e
              | Inr queryLines \<Rightarrow>
                  (let elems = snd (maybeSortMapPage g elemField pt) in
                   ok (head @ queryLines @ [
                         Sprintf ''  // Build HTTP headers from client and context metadata.'' [],
                         Sprintf ''  headers := buildHeaders(ctx, c.xGoogMetadata, metadata.Pairs("Content-Type", "application/json"))'' [],
                         Sprintf ''  e := gax.Invoke(ctx, func(ctx context.Context, settings gax.CallSettings) error {'' [],
                         Sprintf ''    httpReq, err := http.NewRequest("%s", baseUrl.String(), %s)'' [Str verb, Str maybeReqBytes],
                         Sprintf ''    if err != nil {'' [],
                         Sprintf ''      return err'' [],
                         Sprintf ''    }'' [],
                         Sprintf ''    httpReq.Header = headers'' [],
                         Sprintf [] [],
                         Sprintf ''    httpRsp, err := c.httpClient.Do(httpReq)'' [],
                         Sprintf ''    if err != nil{'' [],
                         Sprintf ''     return err'' [],
                         Sprintf ''    }'' [],
                         Sprintf ''    defer httpRsp.Body.Close()'' [],
                         Sprintf [] [],
                         Sprintf ''    if err = googleapi.CheckResponse(httpRsp); err != nil {'' [],
                         Sprintf ''      return err'' [],
                         Sprintf ''    }'' [],
                         Sprintf [] [],
                         Sprintf ''    buf, err := ioutil.ReadAll(httpRsp.Body)'' [],
                         Sprintf ''    if err != nil {'' [],
                         Sprintf ''      return err'' [],
                         Sprintf ''    }'' [],
                         Sprintf [] [],
                         Sprintf ''    if err := unm.Unmarshal(buf, resp); err != nil {'' [],
                         Sprintf ''      return maybeUnknownEnum(err)'' [],
                         Sprintf ''    }'' [],
                         Sprintf [] [],
                         Sprintf ''    return nil'' [],
                         Sprintf ''  }, opts...)'' [],
                         Sprintf ''  if e != nil {'' [],
                         Sprintf ''    return nil, "", e'' [],
                         Sprintf ''  }'' [],
                         Sprintf ''  it.Response = resp'' []] @
                       fst (maybeSortMapPage g elemField pt) @ [
                         Sprintf ''  return %s, resp.GetNextPageToken(), nil'' [Str elems],
                         Sprintf ''}'' [],
                         Sprintf [] []] @
                       makeFetchAndIterUpdate g pageSizeFieldName @ [
                         Sprintf ''}'' []])
                      (imps @
                       [importPath ''google.golang.org/api/iterator'',
                        importPath ''google.golang.org/protobuf/proto'',
                        importPath ''google.golang.org/protobuf/encoding/protojson'',
                        importPath ''google.golang.org/api/googleapi'',
                        inSpec, outSpec]))))))))\<close>

subsection \<open>Dispatch: genRESTMethod\<close>

text \<open>
  genRESTMethod tries, in this order: a long-running operation, the empty output type,
  the paging fields (whose detection, like the iterator type, may fail with an error
  that is returned), client streaming, server streaming; and falls back to the unary
  call.
\<close>

definition genRESTMethod ::
  "generator \<Rightarrow> (fieldMap \<Rightarrow> string list) \<Rightarrow> string \<Rightarrow> ServiceDescriptorProto \<Rightarrow>
   MethodDescriptorProto \<Rightarrow> outcome" where
  "genRESTMethod g keysOf servName serv m =
     (if isLRO g m then (lroRESTCall g servName m)\<lparr>lros := [m]\<rparr>
      else if m_OutputType m = emptyType g then emptyUnaryRESTCall g keysOf servName m
      else
        (case getPagingFields g m of
           Inl e \<Rightarrow> failed [] [] e
         | Inr (Some (pf, ps)) \<Rightarrow>
             (case iterTypeOf g pf of
                Inl e \<Rightarrow> failed [] [] e
              | Inr iter \<Rightarrow> pagingRESTCall g keysOf servName m pf ps iter)
         | Inr None \<Rightarrow>
             if m_ClientStreaming m then noRequestStreamRESTCall g servName serv m
             else if m_ServerStreaming m then serverStreamRESTCall g servName serv m
             else unaryRESTCall g keysOf servName m))"

subsection \<open>Field lookup and the schemas of the package's tests\<close>

text \<open>
  Modelled from the spec: \<open>lookupField\<close> is defined in another file of the package
  (genrest.go only calls it). The spec has a placeholder or body selector resolved,
  within the input message, to the field its dotted path denotes, and a simple name
  resolved to the field of that name directly on the message: the named message is
  looked up in \<open>g.descInfo.Type\<close>, the path is split at the dots, each segment selects
  the field of that name, and every segment but the last must select a message field,
  whose type is entered. The result is nil when the message or a segment is unknown.
\<close>

fun lookupSegments ::
  "(string \<times> ProtoType) list \<Rightarrow> FieldDescriptorProto list \<Rightarrow> string list \<Rightarrow>
   FieldDescriptorProto option" where
  "lookupSegments tys flds [] = None"
| "lookupSegments tys flds [seg] = find (\<lambda>f. f_Name f = seg) flds"
| "lookupSegments tys flds (seg # segs) =
     (case find (\<lambda>f. f_Name f = seg) flds of
        None \<Rightarrow> None
      | Some f \<Rightarrow>
          if f_Type f = TYPE_MESSAGE then
            (case typeAsMessage tys (f_TypeName f) of
               Inl e \<Rightarrow> None
             | Inr d \<Rightarrow> lookupSegments tys (d_Field d) segs)
          else None)"

definition lookupField_model ::
  "(string \<times> ProtoType) list \<Rightarrow> string \<Rightarrow> string \<Rightarrow> FieldDescriptorProto option" where
  "lookupField_model tys msgName path =
     (case typeAsMessage tys msgName of
        Inl e \<Rightarrow> None
      | Inr d \<Rightarrow> lookupSegments tys (d_Field d) (strings_Split path CHR ''.''))"

text \<open>
  A generator over a type table, as the tests build one with \<open>g.init\<close>. The helpers
  that only shape the emitted text get simple stand-ins: no field is required, no
  method is a long-running or paginated one, every import resolves, the printers of
  other files print nothing.
\<close>

definition testGenerator :: "(string \<times> ProtoType) list \<Rightarrow> generator" where
  "testGenerator tys =
     \<lparr>descInfo_Type = tys,
      emptyType = ''.google.protobuf.Empty'',
      lookupField = lookupField_model tys,
      isRequired = (\<lambda>f. False),
      fieldGetter = (\<lambda>path. ''.Get('' @ path @ '')''),
      directAccess = (\<lambda>path. ''.'' @ path),
      snakeToCamel = (\<lambda>s. s),
      lowerFirst = (\<lambda>s. s),
      upperFirst = (\<lambda>s. s),
      isLRO = (\<lambda>m. False),
      getPagingFields = (\<lambda>m. Inr None),
      iterTypeOf = (\<lambda>f. Inr \<lparr>iterTypeName = ''FooIterator'', elemTypeName = ''*foopb.Foo''\<rparr>),
      importSpecType = (\<lambda>n. Inr \<lparr>i_Name = ''foopb'', i_Path = ''cloud/foo/v1''\<rparr>),
      importSpecServ = (\<lambda>s. Inr \<lparr>i_Name = ''foopb'', i_Path = ''cloud/foo/v1''\<rparr>),
      parentFilePackage = (\<lambda>n. ''google.cloud.foo.v1''),
      isCustomOp = (\<lambda>m. False),
      returnType = (\<lambda>m. ''*foopb.Foo''),
      lroTypeName = (\<lambda>n. n @ ''Operation''),
      goTypeForPrim = (\<lambda>t. ''int32''),
      isOptional = (\<lambda>d n. False),
      customOpInit = (\<lambda>d m. []),
      internalFetchSetup = (\<lambda>d i tok n mx ps. []),
      maybeSortMapPage = (\<lambda>f t. ([], ''resp.GetFoos()'')),
      makeFetchAndIterUpdate = (\<lambda>n. [])\<rparr>"

text \<open>A singular field of the given address, name and type, as the tests declare them.\<close>

definition mkField :: "nat \<Rightarrow> string \<Rightarrow> FieldType \<Rightarrow> string \<Rightarrow> FieldDescriptorProto" where
  "mkField p n t tn =
     \<lparr>f_ptr = p, f_Name = n, f_Type = t, f_Label = LABEL_OPTIONAL, f_TypeName = tn,
      f_Proto3Optional = False\<rparr>"

text \<open>The messages of \<open>TestLeafFields\<close>: Chromatophore, Mantle, Squid, Whelk and Trawl.\<close>

definition innermostMsg :: DescriptorProto where
  "innermostMsg = \<lparr>d_Name = ''Chromatophore'',
     d_Field = [mkField 1 ''color_code'' TYPE_INT32 []]\<rparr>"

definition nestedMsg :: DescriptorProto where
  "nestedMsg = \<lparr>d_Name = ''Mantle'',
     d_Field = [mkField 2 ''mass_kg'' TYPE_INT32 [],
                mkField 3 ''chromatophore'' TYPE_MESSAGE ''.animalia.mollusca.Chromatophore'']\<rparr>"

definition complexMsg :: DescriptorProto where
  "complexMsg = \<lparr>d_Name = ''Squid'',
     d_Field = [mkField 4 ''length_m'' TYPE_INT32 [],
                mkField 5 ''mantle'' TYPE_MESSAGE ''.animalia.mollusca.Mantle'']\<rparr>"

definition recursiveMsg :: DescriptorProto where
  "recursiveMsg = \<lparr>d_Name = ''Whelk'',
     d_Field = [mkField 6 ''mass_kg'' TYPE_INT32 [],
                mkField 7 ''whelk'' TYPE_MESSAGE ''.animalia.mollusca.Whelk'']\<rparr>"

definition overarchingMsg :: DescriptorProto where
  "overarchingMsg = \<lparr>d_Name = ''Trawl'',
     d_Field = [(mkField 8 ''clams'' TYPE_MESSAGE ''.animalia.mollusca'')
                  \<lparr>f_Label := LABEL_REPEATED\<rparr>,
                mkField 9 ''mass_kg'' TYPE_INT32 []]\<rparr>"

definition molluscaTypes :: "(string \<times> ProtoType) list" where
  "molluscaTypes =
     [(''.animalia.mollusca.Chromatophore'', MessageType innermostMsg),
      (''.animalia.mollusca.Mantle'', MessageType nestedMsg),
      (''.animalia.mollusca.Squid'', MessageType complexMsg),
      (''.animalia.mollusca.Whelk'', MessageType recursiveMsg),
      (''.animalia.mollusca.Trawl'', MessageType overarchingMsg)]"

text \<open>
  \<open>setupMethod\<close> of the tests: a request \<open>IdentifyRequest\<close> of int32 fields with the given
  names, registered as \<open>.identify.IdentifyRequest\<close>, and the method \<open>Identify\<close> bound to
  GET on the given URL with the given body.
\<close>

fun identifyFields :: "nat \<Rightarrow> string list \<Rightarrow> FieldDescriptorProto list" where
  "identifyFields i [] = []"
| "identifyFields i (n # ns) = mkField (Suc i) n TYPE_INT32 [] # identifyFields (Suc i) ns"

definition identifyTypes :: "string list \<Rightarrow> (string \<times> ProtoType) list" where
  "identifyTypes names =
     [(''.identify.IdentifyRequest'',
       MessageType \<lparr>d_Name = ''IdentifyRequest'', d_Field = identifyFields 0 names\<rparr>)]"

definition setupMethod :: "string \<Rightarrow> string \<Rightarrow> MethodDescriptorProto" where
  "setupMethod url body =
     \<lparr>m_Name = ''Identify'', m_InputType = ''.identify.IdentifyRequest'', m_OutputType = [],
      m_Options = Some \<lparr>o_Http = Some \<lparr>r_Body = body, r_Pattern = HttpRule_Get url\<rparr>\<rparr>,
      m_ClientStreaming = False, m_ServerStreaming = False\<rparr>"

text \<open>
  The fixtures of \<open>TestGenRestMethod\<close>: the message Foo with the required field \<open>size\<close> and
  the proto3 optional field \<open>other\<close>, the paged request and response, and a generator
  over them in which \<open>size\<close> is required, a method is long-running when it returns
  \<open>google.longrunning.Operation\<close>, and the methods that return the paged response are
  paginated.
\<close>

definition sizeField :: FieldDescriptorProto where
  "sizeField = mkField 10 ''size'' TYPE_INT32 []"

definition otherField :: FieldDescriptorProto where
  "otherField = (mkField 11 ''other'' TYPE_STRING [])\<lparr>f_Proto3Optional := True\<rparr>"

definition pageSizeField :: FieldDescriptorProto where
  "pageSizeField = mkField 12 ''page_size'' TYPE_INT32 []"

definition foosField :: FieldDescriptorProto where
  "foosField = (mkField 14 ''foos'' TYPE_MESSAGE ''.google.cloud.foo.v1.Foo'')
                  \<lparr>f_Label := LABEL_REPEATED\<rparr>"

definition fooTypes :: "(string \<times> ProtoType) list" where
  "fooTypes =
     [(''.google.cloud.foo.v1.Foo'',
         MessageType \<lparr>d_Name = ''Foo'', d_Field = [sizeField, otherField]\<rparr>),
      (''.google.protobuf.Empty'', MessageType \<lparr>d_Name = ''Empty'', d_Field = []\<rparr>),
      (''.google.cloud.foo.v1.PagedFooRequest'',
         MessageType \<lparr>d_Name = ''PagedFooRequest'',
           d_Field = [pageSizeField, mkField 13 ''page_token'' TYPE_STRING []]\<rparr>),
      (''.google.cloud.foo.v1.PagedFooResponse'',
         MessageType \<lparr>d_Name = ''PagedFooResponse'',
           d_Field = [foosField, mkField 15 ''next_page_token'' TYPE_STRING []]\<rparr>)]"

definition fooGenerator :: generator where
  "fooGenerator =
     (testGenerator fooTypes)
       \<lparr>isRequired := (\<lambda>f. f_ptr f = 10),
        isLRO := (\<lambda>m. m_OutputType m = ''.google.longrunning.Operation''),
        getPagingFields := (\<lambda>m. if m_OutputType m = ''.google.cloud.foo.v1.PagedFooResponse''
                                  then Inr (Some (foosField, pageSizeField)) else Inr None)\<rparr>"

definition fooMethod ::
  "string \<Rightarrow> string \<Rightarrow> string \<Rightarrow> HttpPattern \<Rightarrow> string \<Rightarrow> MethodDescriptorProto" where
  "fooMethod name inp out pat body =
     \<lparr>m_Name = name, m_InputType = inp, m_OutputType = out,
      m_Options = Some \<lparr>o_Http = Some \<lparr>r_Body = body, r_Pattern = pat\<rparr>\<rparr>,
      m_ClientStreaming = False, m_ServerStreaming = False\<rparr>"

definition pagingRPC :: MethodDescriptorProto where
  "pagingRPC = fooMethod ''PagingRPC'' ''.google.cloud.foo.v1.PagedFooRequest''
                 ''.google.cloud.foo.v1.PagedFooResponse'' (HttpRule_Get ''/v1/foo'') []"

definition fooService :: ServiceDescriptorProto where
  "fooService = \<lparr>s_Name = ''FooService''\<rparr>"

text \<open>Further methods used in the examples.\<close>

definition getWithBody :: MethodDescriptorProto where
  "getWithBody = fooMethod ''UnaryRPC'' ''.google.cloud.foo.v1.Foo'' ''.google.cloud.foo.v1.Foo''
                   (HttpRule_Get ''/v1/foo'') ''*''"


definition squidMethod :: "string \<Rightarrow> string \<Rightarrow> MethodDescriptorProto" where
  "squidMethod url body =
     \<lparr>m_Name = ''UpdateSquid'', m_InputType = ''.animalia.mollusca.Squid'', m_OutputType = [],
      m_Options = Some \<lparr>o_Http = Some \<lparr>r_Body = body, r_Pattern = HttpRule_Post url\<rparr>\<rparr>,
      m_ClientStreaming = False, m_ServerStreaming = False\<rparr>"

definition unresolvedRPC :: MethodDescriptorProto where
  "unresolvedRPC = fooMethod ''UnaryRPC'' ''.google.cloud.foo.v1.Foo'' ''.google.cloud.foo.v1.Foo''
                     (HttpRule_Post ''/v1/{kingdom}'') ''*''"

definition noOptionsMethod :: MethodDescriptorProto where
  "noOptionsMethod =
     \<lparr>m_Name = ''Identify'', m_InputType = ''.identify.IdentifyRequest'', m_OutputType = [],
      m_Options = None, m_ClientStreaming = False, m_ServerStreaming = False\<rparr>"

definition threeLeafs :: fieldMap where
  "threeLeafs = [''mass_kg'' \<mapsto> mkField 1 ''mass_kg'' TYPE_INT32 [],
                 ''guess'' \<mapsto> mkField 2 ''guess'' TYPE_INT32 [],
                 ''kingdom'' \<mapsto> mkField 3 ''kingdom'' TYPE_INT32 []]"

text \<open>Reading one key of a result that may be an error.\<close>

definition leafAt :: "error + fieldMap \<Rightarrow> string \<Rightarrow> error + FieldDescriptorProto option" where
  "leafAt r key = (case r of Inl e \<Rightarrow> Inl e | Inr leafs \<Rightarrow> Inr (leafs key))"

subsection \<open>Notions used to state the properties of the walk\<close>

text \<open>
  A schema is closed for a message when every singular message field of the message and
  of the type table names a message of the table: the invariant of the data model that
  a field's type is resolvable in the schema.
\<close>

definition resolvable :: "(string \<times> ProtoType) list \<Rightarrow> FieldDescriptorProto \<Rightarrow> bool" where
  "resolvable tys f =
     (if f_Type f = TYPE_MESSAGE \<and> f_Label f \<noteq> LABEL_REPEATED
      then \<not> isl (typeAsMessage tys (f_TypeName f)) else True)"

definition closedSchema :: "generator \<Rightarrow> DescriptorProto \<Rightarrow> bool" where
  "closedSchema g msg =
     list_all (resolvable (descInfo_Type g)) (d_Field msg @ schemaFields (descInfo_Type g))"

text \<open>
  The leaves of the depth-first walk as the design describes it: \<open>leafChain g ex stack
  flds chain x\<close> holds when the non-message field \<open>x\<close> is reached from the fields \<open>flds\<close>
  at \<open>stack\<close> through the message fields \<open>chain\<close> (the stack at \<open>x\<close>), entering a message
  field only if it is singular, not excluded and not already on the path.
\<close>

inductive leafChain ::
  "generator \<Rightarrow> FieldDescriptorProto option list \<Rightarrow> FieldDescriptorProto list \<Rightarrow>
   FieldDescriptorProto list \<Rightarrow> FieldDescriptorProto list \<Rightarrow> FieldDescriptorProto \<Rightarrow> bool"
  for g ex where
  here: "x \<in> set flds \<Longrightarrow> f_Type x \<noteq> TYPE_MESSAGE \<Longrightarrow> leafChain g ex stack flds stack x"
| under: "field \<in> set flds \<Longrightarrow> f_Type field = TYPE_MESSAGE \<Longrightarrow>
     f_Label field \<noteq> LABEL_REPEATED \<Longrightarrow> \<not> contains ex field \<Longrightarrow>
     \<not> contains (map Some stack) field \<Longrightarrow>
     typeAsMessage (descInfo_Type g) (f_TypeName field) = Inr subMsg \<Longrightarrow>
     leafChain g ex (stack @ [field]) (d_Field subMsg) chain x \<Longrightarrow>
     leafChain g ex stack flds chain x"

definition pathKey :: "FieldDescriptorProto list \<Rightarrow> FieldDescriptorProto \<Rightarrow> string" where
  "pathKey chain x = join (map f_Name chain @ [f_Name x]) ''.''"


text \<open>
  A path lies in the subtree of the body selector when it is the selector or continues
  it after a dot.
\<close>

definition nestedUnder :: "string \<Rightarrow> string \<Rightarrow> bool" where
  "nestedUnder body path = (path = body \<or> take (Suc (length body)) path = body @ ''.'')"

text \<open>
  The statement that adds a parameter to the query, and the same under a guard: the
  three lines printed for a guarded parameter.
\<close>

definition paramAdd :: "generator \<Rightarrow> string \<Rightarrow> gotext" where
  \<open>paramAdd g path =
     Sprintf ''params.Add(%q, fmt.Sprintf(%q, req%s))''
       [Str (lowerFirst g (snakeToCamel g path)), Str ''%v'', Str (fieldGetter g path)]\<close>


section \<open>Properties\<close>

subsection \<open>The walk of getLeafs\<close>

lemma recurse_total:
  "list_all (resolvable (descInfo_Type g)) (flds @ schemaFields (descInfo_Type g)) \<Longrightarrow>
   \<exists>leafs. recurse g ex stack flds acc = Inr leafs"
proof (induction g ex stack flds acc rule: recurse.induct)
  case (1 g ex stack acc)
  show ?case by simp
next
  case (2 g ex stack field rest acc)
  have rest: "list_all (resolvable (descInfo_Type g)) (rest @ schemaFields (descInfo_Type g))"
    using "2.prems" by simp
  show ?case
  proof (cases "f_Type field = TYPE_MESSAGE")
    case False
    then show ?thesis using "2.IH"(6) rest by simp
  next
    case msg: True
    show ?thesis
    proof (cases "f_Label field = LABEL_REPEATED \<or> contains ex field \<or> contains (map Some stack) field")
      case True
      then show ?thesis using msg "2.IH"(1,2,3) rest by auto
    next
      case False
      then have "resolvable (descInfo_Type g) field" using "2.prems" by simp
      with msg False obtain subMsg where
        sub: "typeAsMessage (descInfo_Type g) (f_TypeName field) = Inr subMsg"
        by (cases "typeAsMessage (descInfo_Type g) (f_TypeName field)") (auto simp: resolvable_def)
      have "list_all (resolvable (descInfo_Type g)) (d_Field subMsg @ schemaFields (descInfo_Type g))"
        using typeAsMessage_schemaFields [OF sub] "2.prems" by (auto simp: list_all_iff)
      with "2.IH"(4) msg False sub obtain leafs' where
        inner: "recurse g ex (stack @ [field]) (d_Field subMsg) acc = Inr leafs'" by auto
      from "2.IH"(5) [OF msg _ _ _ sub inner] False rest obtain leafs where
        "recurse g ex stack rest leafs' = Inr leafs" by auto
      with msg False sub inner show ?thesis by simp
    qed
  qed
qed

lemma dom_handleLeaf:
  "dom (handleLeaf field stack acc) = insert (join (map f_Name stack @ [f_Name field]) ''.'') (dom acc)"
  by (simp add: handleLeaf_def Let_def)

lemma recurse_skip:
  "f_Type field = TYPE_MESSAGE \<Longrightarrow>
   f_Label field = LABEL_REPEATED \<or> contains ex field \<or> contains (map Some stack) field \<Longrightarrow>
   recurse g ex stack (field # rest) acc = recurse g ex stack rest acc"
  by auto

lemma recurse_dom_mono:
  "recurse g ex stack flds acc = Inr leafs \<Longrightarrow> dom acc \<subseteq> dom leafs"
proof (induction g ex stack flds acc arbitrary: leafs rule: recurse.induct)
  case (1 g ex stack acc)
  then show ?case by simp
next
  case (2 g ex stack field rest acc)
  show ?case
  proof (cases "f_Type field = TYPE_MESSAGE")
    case False
    with "2.prems" have "recurse g ex stack rest (handleLeaf field stack acc) = Inr leafs" by simp
    from "2.IH"(6) [OF False this] show ?thesis by (auto simp: dom_handleLeaf)
  next
    case msg: True
    show ?thesis
    proof (cases "f_Label field = LABEL_REPEATED \<or> contains ex field \<or> contains (map Some stack) field")
      case True
      with msg "2.prems"(1) have "recurse g ex stack rest acc = Inr leafs"
        by (simp only: recurse_skip)
      with True msg "2.IH"(1,2,3) show ?thesis by blast
    next
      case False
      with msg "2.prems" obtain subMsg leafs' where
        sub: "typeAsMessage (descInfo_Type g) (f_TypeName field) = Inr subMsg" and
        inner: "recurse g ex (stack @ [field]) (d_Field subMsg) acc = Inr leafs'" and
        outer: "recurse g ex stack rest leafs' = Inr leafs"
        by (auto split: sum.splits)
      have "dom acc \<subseteq> dom leafs'" using "2.IH"(4) msg False sub inner by blast
      moreover have "dom leafs' \<subseteq> dom leafs" using "2.IH"(5) msg False sub inner outer by blast
      ultimately show ?thesis by blast
    qed
  qed
qed

lemma recurse_values:
  "recurse g ex stack flds acc = Inr leafs \<Longrightarrow>
   \<forall>k f. acc k = Some f \<longrightarrow> f_Type f \<noteq> TYPE_MESSAGE \<Longrightarrow>
   \<forall>k f. leafs k = Some f \<longrightarrow> f_Type f \<noteq> TYPE_MESSAGE"
proof (induction g ex stack flds acc arbitrary: leafs rule: recurse.induct)
  case (1 g ex stack acc)
  then show ?case by simp
next
  case (2 g ex stack field rest acc)
  show ?case
  proof (cases "f_Type field = TYPE_MESSAGE")
    case False
    with "2.prems" have r: "recurse g ex stack rest (handleLeaf field stack acc) = Inr leafs" by simp
    have "\<forall>k f. handleLeaf field stack acc k = Some f \<longrightarrow> f_Type f \<noteq> TYPE_MESSAGE"
      using False "2.prems"(2) by (auto simp: handleLeaf_def Let_def split: if_splits)
    from "2.IH"(6) [OF False r this] show ?thesis .
  next
    case msg: True
    show ?thesis
    proof (cases "f_Label field = LABEL_REPEATED \<or> contains ex field \<or> contains (map Some stack) field")
      case True
      with msg "2.prems"(1) have "recurse g ex stack rest acc = Inr leafs"
        by (simp only: recurse_skip)
      with True msg "2.IH"(1,2,3) "2.prems"(2) show ?thesis by blast
    next
      case False
      with msg "2.prems" obtain subMsg leafs' where
        sub: "typeAsMessage (descInfo_Type g) (f_TypeName field) = Inr subMsg" and
        inner: "recurse g ex (stack @ [field]) (d_Field subMsg) acc = Inr leafs'" and
        outer: "recurse g ex stack rest leafs' = Inr leafs"
        by (auto split: sum.splits)
      have "\<forall>k f. leafs' k = Some f \<longrightarrow> f_Type f \<noteq> TYPE_MESSAGE"
        using "2.IH"(4) msg False sub inner "2.prems"(2) by blast
      then show ?thesis using "2.IH"(5) msg False sub inner outer by blast
    qed
  qed
qed


lemma handleLeaf_key: "handleLeaf x stack acc (pathKey stack x) = Some x"
  by (simp add: handleLeaf_def pathKey_def Let_def)

lemma leafChain_Cons:
  "leafChain g ex stack rest chain x \<Longrightarrow> leafChain g ex stack (field # rest) chain x"
  by (induction rule: leafChain.induct) (auto intro: leafChain.intros)

lemma recurse_complete:
  "leafChain g ex stack flds chain x \<Longrightarrow> recurse g ex stack flds acc = Inr leafs \<Longrightarrow>
   pathKey chain x \<in> dom leafs"
proof (induction arbitrary: acc leafs rule: leafChain.induct)
  case (here x flds stack)
  then show ?case
  proof (induction flds arbitrary: acc)
    case Nil
    then show ?case by simp
  next
    case (Cons field rest)
    show ?case
    proof (cases "x = field")
      case True
      with Cons.prems have "recurse g ex stack rest (handleLeaf x stack acc) = Inr leafs" by simp
      from recurse_dom_mono [OF this] handleLeaf_key [of x stack acc] show ?thesis by blast
    next
      case False
      with Cons.prems have xin: "x \<in> set rest" by simp
      show ?thesis
      proof (cases "f_Type field = TYPE_MESSAGE")
        case nm: False
        with Cons.prems have "recurse g ex stack rest (handleLeaf field stack acc) = Inr leafs" by simp
        from Cons.IH [OF xin Cons.prems(2) this] show ?thesis .
      next
        case msg: True
        show ?thesis
        proof (cases "f_Label field = LABEL_REPEATED \<or> contains ex field \<or> contains (map Some stack) field")
          case True
          with msg Cons.prems(3) have "recurse g ex stack rest acc = Inr leafs"
            by (simp only: recurse_skip)
          from Cons.IH [OF xin Cons.prems(2) this] show ?thesis .
        next
          case False
          with msg Cons.prems(3) obtain leafs' where
            "recurse g ex stack rest leafs' = Inr leafs"
            by (auto split: sum.splits)
          from Cons.IH [OF xin Cons.prems(2) this] show ?thesis .
        qed
      qed
    qed
  qed
next
  case (under field flds stack subMsg chain x)
  from under.hyps(1) under.prems show ?case
  proof (induction flds arbitrary: acc)
    case Nil
    then show ?case by simp
  next
    case (Cons f rest)
    show ?case
    proof (cases "field = f")
      case True
      with under.hyps Cons.prems(2) obtain leafs' where
        inner: "recurse g ex (stack @ [field]) (d_Field subMsg) acc = Inr leafs'" and
        outer: "recurse g ex stack rest leafs' = Inr leafs"
        by (auto split: sum.splits)
      from under.IH [OF inner] recurse_dom_mono [OF outer] show ?thesis by blast
    next
      case False
      with Cons.prems have fin: "field \<in> set rest" by simp
      show ?thesis
      proof (cases "f_Type f = TYPE_MESSAGE")
        case nm: False
        with Cons.prems have "recurse g ex stack rest (handleLeaf f stack acc) = Inr leafs" by simp
        from Cons.IH [OF fin this] show ?thesis .
      next
        case msg: True
        show ?thesis
        proof (cases "f_Label f = LABEL_REPEATED \<or> contains ex f \<or> contains (map Some stack) f")
          case True
          with msg Cons.prems(2) have "recurse g ex stack rest acc = Inr leafs"
            by (simp only: recurse_skip)
          from Cons.IH [OF fin this] show ?thesis .
        next
          case False
          with msg Cons.prems(2) obtain leafs' where
            "recurse g ex stack rest leafs' = Inr leafs"
            by (auto split: sum.splits)
          from Cons.IH [OF fin this] show ?thesis .
        qed
      qed
    qed
  qed
qed

lemma recurse_sound:
  "recurse g ex stack flds acc = Inr leafs \<Longrightarrow> leafs k = Some f \<Longrightarrow>
   acc k = Some f \<or> (\<exists>chain. leafChain g ex stack flds chain f \<and> k = pathKey chain f)"
proof (induction g ex stack flds acc arbitrary: leafs rule: recurse.induct)
  case (1 g ex stack acc)
  then show ?case by simp
next
  case (2 g ex stack field rest acc)
  show ?case
  proof (cases "f_Type field = TYPE_MESSAGE")
    case False
    with "2.prems" have r: "recurse g ex stack rest (handleLeaf field stack acc) = Inr leafs" by simp
    from "2.IH"(6) [OF False r "2.prems"(2)] show ?thesis
    proof
      assume h: "handleLeaf field stack acc k = Some f"
      show ?thesis
      proof (cases "k = pathKey stack field")
        case True
        with h have "f = field" by (simp add: handleLeaf_key)
        with True False have "leafChain g ex stack (field # rest) stack f \<and> k = pathKey stack f"
          by (auto intro: leafChain.here)
        then show ?thesis by blast
      next
        case nk: False
        with h have "acc k = Some f" by (simp add: handleLeaf_def pathKey_def Let_def)
        then show ?thesis by simp
      qed
    next
      assume "\<exists>chain. leafChain g ex stack rest chain f \<and> k = pathKey chain f"
      then show ?thesis by (blast intro: leafChain_Cons)
    qed
  next
    case msg: True
    show ?thesis
    proof (cases "f_Label field = LABEL_REPEATED \<or> contains ex field \<or> contains (map Some stack) field")
      case True
      with msg "2.prems"(1) have r: "recurse g ex stack rest acc = Inr leafs"
        by (simp only: recurse_skip)
      have "acc k = Some f \<or> (\<exists>chain. leafChain g ex stack rest chain f \<and> k = pathKey chain f)"
        using True msg "2.IH"(1,2,3) r "2.prems"(2) by blast
      then show ?thesis by (blast intro: leafChain_Cons)
    next
      case False
      with msg "2.prems" obtain subMsg leafs' where
        sub: "typeAsMessage (descInfo_Type g) (f_TypeName field) = Inr subMsg" and
        inner: "recurse g ex (stack @ [field]) (d_Field subMsg) acc = Inr leafs'" and
        outer: "recurse g ex stack rest leafs' = Inr leafs"
        by (auto split: sum.splits)
      have "leafs' k = Some f \<or> (\<exists>chain. leafChain g ex stack rest chain f \<and> k = pathKey chain f)"
        using "2.IH"(5) msg False sub inner outer "2.prems"(2) by blast
      then show ?thesis
      proof
        assume "leafs' k = Some f"
        then have "acc k = Some f \<or>
          (\<exists>chain. leafChain g ex (stack @ [field]) (d_Field subMsg) chain f \<and> k = pathKey chain f)"
          using "2.IH"(4) msg False sub inner by blast
        then show ?thesis
        proof
          assume "acc k = Some f" then show ?thesis by simp
        next
          assume "\<exists>chain. leafChain g ex (stack @ [field]) (d_Field subMsg) chain f \<and> k = pathKey chain f"
          then obtain chain where
            c: "leafChain g ex (stack @ [field]) (d_Field subMsg) chain f" "k = pathKey chain f"
            by blast
          have "leafChain g ex stack (field # rest) chain f"
            using leafChain.under [of field "field # rest" ex stack g subMsg chain f] msg False sub c(1)
            by simp
          with c(2) show ?thesis by blast
        qed
      next
        assume "\<exists>chain. leafChain g ex stack rest chain f \<and> k = pathKey chain f"
        then show ?thesis by (blast intro: leafChain_Cons)
      qed
    qed
  qed
qed

lemma leafChain_avoids:
  "leafChain g ex stack flds chain x \<Longrightarrow>
   \<exists>more. chain = stack @ more \<and> (\<forall>f \<in> set more. \<not> contains ex f \<and> f_Type f = TYPE_MESSAGE \<and> f_Label f \<noteq> LABEL_REPEATED)"
  by (induction rule: leafChain.induct) auto


lemmas fixture_defs = testGenerator_def molluscaTypes_def complexMsg_def nestedMsg_def
  innermostMsg_def recursiveMsg_def overarchingMsg_def mkField_def typeAsMessage_def
  identifyTypes_def setupMethod_def lookupField_model_def

lemmas foo_defs = fooGenerator_def fooTypes_def sizeField_def otherField_def pageSizeField_def
  foosField_def fooMethod_def pagingRPC_def fooService_def testGenerator_def mkField_def
  typeAsMessage_def typeGetName_def lookupField_model_def

text \<open>
  C5. The claim: for every root message and exclusion set, the mapping of the leaf-field
  resolver contains an entry for every force-excluded message-typed field reachable
  from the root, mapped at its dotted path, besides the entries of the reachable
  non-message fields. As amended: the mapping has an entry at the dotted path of every
  non-message field that the walk reaches, and every entry is such a field, reached by a
  chain of message fields none of which is excluded; no message-typed field, and so no
  force-excluded message field, is ever mapped.
\<close>

theorem getLeafs_maps_non_message_leaves:
  assumes "getLeafs g msg ex = Inr leafs"
  shows "(\<forall>k f. leafs k = Some f \<longrightarrow> f_Type f \<noteq> TYPE_MESSAGE \<and>
             (\<exists>chain. leafChain g ex [] (d_Field msg) chain f \<and> k = pathKey chain f \<and>
                      (\<forall>c \<in> set chain. \<not> contains ex c)))
       \<and> (\<forall>chain x. leafChain g ex [] (d_Field msg) chain x \<longrightarrow> pathKey chain x \<in> dom leafs)"
proof (intro conjI allI impI)
  fix k f assume kf: "leafs k = Some f"
  from recurse_values [OF assms [unfolded getLeafs_def]] kf
  show "f_Type f \<noteq> TYPE_MESSAGE" by simp
  from recurse_sound [OF assms [unfolded getLeafs_def] kf] obtain chain where
    c: "leafChain g ex [] (d_Field msg) chain f" "k = pathKey chain f" by auto
  from leafChain_avoids [OF c(1)] have "\<forall>c \<in> set chain. \<not> contains ex c" by auto
  with c show "\<exists>chain. leafChain g ex [] (d_Field msg) chain f \<and> k = pathKey chain f \<and>
                      (\<forall>c \<in> set chain. \<not> contains ex c)" by blast
next
  fix chain x assume "leafChain g ex [] (d_Field msg) chain x"
  from recurse_complete [OF this assms [unfolded getLeafs_def]]
  show "pathKey chain x \<in> dom leafs" .
qed

theorem getLeafs_maps_non_message_leaves_witness:
  "getLeafs (testGenerator molluscaTypes) complexMsg
      [Some (mkField 3 ''chromatophore'' TYPE_MESSAGE ''.animalia.mollusca.Chromatophore'')]
     = Inr [''length_m'' \<mapsto> mkField 4 ''length_m'' TYPE_INT32 [],
            ''mantle.mass_kg'' \<mapsto> mkField 2 ''mass_kg'' TYPE_INT32 []]
   \<and> leafChain (testGenerator molluscaTypes)
        [Some (mkField 3 ''chromatophore'' TYPE_MESSAGE ''.animalia.mollusca.Chromatophore'')]
        [] (d_Field complexMsg)
        [mkField 5 ''mantle'' TYPE_MESSAGE ''.animalia.mollusca.Mantle'']
        (mkField 2 ''mass_kg'' TYPE_INT32 [])
   \<and> pathKey [mkField 5 ''mantle'' TYPE_MESSAGE ''.animalia.mollusca.Mantle'']
        (mkField 2 ''mass_kg'' TYPE_INT32 [])
       \<in> dom [''length_m'' \<mapsto> mkField 4 ''length_m'' TYPE_INT32 [],
              ''mantle.mass_kg'' \<mapsto> mkField 2 ''mass_kg'' TYPE_INT32 []]"
proof -
  let ?G = "testGenerator molluscaTypes"
  let ?ex = "[Some (mkField 3 ''chromatophore'' TYPE_MESSAGE ''.animalia.mollusca.Chromatophore'')]"
  let ?leafs = "[''length_m'' \<mapsto> mkField 4 ''length_m'' TYPE_INT32 [],
            ''mantle.mass_kg'' \<mapsto> mkField 2 ''mass_kg'' TYPE_INT32 []]"
  have h: "getLeafs ?G complexMsg ?ex = Inr ?leafs"
    by (simp add: getLeafs_def handleLeaf_def fixture_defs)
  have inner: "leafChain ?G ?ex ([] @ [mkField 5 ''mantle'' TYPE_MESSAGE ''.animalia.mollusca.Mantle''])
       (d_Field nestedMsg) ([] @ [mkField 5 ''mantle'' TYPE_MESSAGE ''.animalia.mollusca.Mantle''])
       (mkField 2 ''mass_kg'' TYPE_INT32 [])"
    by (rule leafChain.here) (simp_all add: fixture_defs)
  have lc: "leafChain ?G ?ex [] (d_Field complexMsg)
        ([] @ [mkField 5 ''mantle'' TYPE_MESSAGE ''.animalia.mollusca.Mantle''])
        (mkField 2 ''mass_kg'' TYPE_INT32 [])"
    by (rule leafChain.under [OF _ _ _ _ _ _ inner]) (simp_all add: fixture_defs)
  from getLeafs_maps_non_message_leaves [OF h] lc
  have "pathKey ([] @ [mkField 5 ''mantle'' TYPE_MESSAGE ''.animalia.mollusca.Mantle''])
        (mkField 2 ''mass_kg'' TYPE_INT32 []) \<in> dom ?leafs"
    by blast
  with h lc show ?thesis by simp
qed

text \<open>
  The claim of C5 fails on the excluded-message case of \<open>TestLeafFields\<close>: with
  \<open>chromatophore\<close> of Mantle excluded, Squid has no entry at \<open>mantle.chromatophore\<close>.
\<close>

theorem excluded_message_has_no_entry:
  "leafAt (getLeafs (testGenerator molluscaTypes) complexMsg
      [Some (mkField 3 ''chromatophore'' TYPE_MESSAGE ''.animalia.mollusca.Chromatophore'')])
     ''mantle.chromatophore'' = Inr None"
  by (simp add: leafAt_def getLeafs_def handleLeaf_def fixture_defs)

text \<open>
  C6. For every finite message graph whose singular message fields resolve, cyclic or
  not, leaf-field resolution returns a mapping (the recursion is total, and the walk
  does not fail); a message field already on the current path is skipped, so that the
  cyclic edge adds nothing to the mapping; and every non-message field at the end of a
  path of singular, non-excluded message fields that does not repeat a field has its
  entry, whichever other paths lead to the same message type.
\<close>

theorem getLeafs_total_on_cycles:
  assumes "closedSchema g msg"
  shows "(\<exists>leafs. getLeafs g msg ex = Inr leafs)
       \<and> (\<forall>stack field rest acc.
             f_Type field = TYPE_MESSAGE \<and> contains (map Some stack) field \<longrightarrow>
             recurse g ex stack (field # rest) acc = recurse g ex stack rest acc)
       \<and> (\<forall>leafs chain x.
             getLeafs g msg ex = Inr leafs \<and> leafChain g ex [] (d_Field msg) chain x \<longrightarrow>
             pathKey chain x \<in> dom leafs)"
proof (intro conjI allI impI)
  show "\<exists>leafs. getLeafs g msg ex = Inr leafs"
    using assms recurse_total [of g "d_Field msg" ex "[]" Map.empty]
    by (simp add: closedSchema_def getLeafs_def)
next
  fix stack field rest acc
  assume "f_Type field = TYPE_MESSAGE \<and> contains (map Some stack) field"
  then show "recurse g ex stack (field # rest) acc = recurse g ex stack rest acc"
    using recurse_skip [where field = field and stack = stack and ex = ex] by blast
next
  fix leafs chain x
  assume a: "getLeafs g msg ex = Inr leafs \<and> leafChain g ex [] (d_Field msg) chain x"
  then show "pathKey chain x \<in> dom leafs"
    using recurse_complete [of g ex "[]" "d_Field msg" chain x Map.empty leafs]
    by (simp add: getLeafs_def)
qed

theorem getLeafs_total_on_cycles_witness:
  "closedSchema (testGenerator molluscaTypes) recursiveMsg
   \<and> getLeafs (testGenerator molluscaTypes) recursiveMsg []
       = Inr [''mass_kg'' \<mapsto> mkField 6 ''mass_kg'' TYPE_INT32 [],
              ''whelk.mass_kg'' \<mapsto> mkField 6 ''mass_kg'' TYPE_INT32 []]
   \<and> recurse (testGenerator molluscaTypes) []
        [mkField 7 ''whelk'' TYPE_MESSAGE ''.animalia.mollusca.Whelk'']
        [mkField 7 ''whelk'' TYPE_MESSAGE ''.animalia.mollusca.Whelk''] Map.empty
       = recurse (testGenerator molluscaTypes) []
        [mkField 7 ''whelk'' TYPE_MESSAGE ''.animalia.mollusca.Whelk''] [] Map.empty"
proof -
  have h: "closedSchema (testGenerator molluscaTypes) recursiveMsg"
    by (simp add: closedSchema_def resolvable_def schemaFields_def fixture_defs)
  have v: "getLeafs (testGenerator molluscaTypes) recursiveMsg []
       = Inr [''mass_kg'' \<mapsto> mkField 6 ''mass_kg'' TYPE_INT32 [],
              ''whelk.mass_kg'' \<mapsto> mkField 6 ''mass_kg'' TYPE_INT32 []]"
    by (simp add: getLeafs_def handleLeaf_def fixture_defs)
  from getLeafs_total_on_cycles [OF h, of "[]"] h v show ?thesis
    by (simp add: mkField_def)
qed


subsection \<open>Path parameters\<close>

lemma pathParams_loop_at:
  "pathParams_loop g inputType ps acc param =
     (if param \<in> set ps \<and> lookupField g inputType param \<noteq> None
      then lookupField g inputType param else acc param)"
  by (induction ps arbitrary: acc) (auto split: option.splits)

text \<open>
  C2. The claim: for every method with an HTTP annotation, every placeholder of the URL
  template that does not resolve to a field of the input message causes a fatal
  generation-time error. As amended: such a placeholder is skipped without an error;
  the path parameters are exactly the placeholders of the template that resolve, each
  mapped to the field it resolves to.
\<close>

theorem pathParams_skips_unresolved:
  assumes "getHTTPInfo m = Some info"
  shows "pathParams g m param =
     (if param \<in> set (findAllBraced (h_url info)) then lookupField g (m_InputType m) param
      else None)"
  using assms by (simp add: pathParams_def pathParams_loop_at)

theorem pathParams_skips_unresolved_witness:
  "getHTTPInfo (setupMethod ''/kingdom/{kingdom}/phylum/{phylum}'' []) =
     Some \<lparr>h_verb = ''get'', h_url = ''/kingdom/{kingdom}/phylum/{phylum}'', h_body = []\<rparr>
   \<and> pathParams (testGenerator (identifyTypes [''name'', ''mass_kg'', ''kingdom'']))
       (setupMethod ''/kingdom/{kingdom}/phylum/{phylum}'' []) ''kingdom''
     = Some (mkField 3 ''kingdom'' TYPE_INT32 [])
   \<and> pathParams (testGenerator (identifyTypes [''name'', ''mass_kg'', ''kingdom'']))
       (setupMethod ''/kingdom/{kingdom}/phylum/{phylum}'' []) ''phylum'' = None"
proof -
  have h: "getHTTPInfo (setupMethod ''/kingdom/{kingdom}/phylum/{phylum}'' []) =
     Some \<lparr>h_verb = ''get'', h_url = ''/kingdom/{kingdom}/phylum/{phylum}'', h_body = []\<rparr>"
    by (simp add: getHTTPInfo_def setupMethod_def)
  show ?thesis
    using h
      pathParams_skips_unresolved [OF h,
        of "testGenerator (identifyTypes [''name'', ''mass_kg'', ''kingdom''])" "''kingdom''"]
      pathParams_skips_unresolved [OF h,
        of "testGenerator (identifyTypes [''name'', ''mass_kg'', ''kingdom''])" "''phylum''"]
    by (simp add: fixture_defs)
qed

text \<open>
  The claim of C2 fails on the case \<open>disjoint_fields_and_params\<close> of \<open>TestPathParams\<close>:
  the placeholder \<open>kingdom\<close> names no field of the request, and the result is the empty
  mapping. The unary call of a method with such a placeholder is generated without an
  error.
\<close>

theorem unresolved_placeholder_not_fatal:
  "findAllBraced ''/kingdom/{kingdom}'' = [''kingdom'']
   \<and> lookupField (testGenerator (identifyTypes [''name'', ''mass_kg'']))
        ''.identify.IdentifyRequest'' ''kingdom'' = None
   \<and> pathParams (testGenerator (identifyTypes [''name'', ''mass_kg'']))
        (setupMethod ''/kingdom/{kingdom}'' []) = Map.empty
   \<and> pathParams fooGenerator unresolvedRPC = Map.empty
   \<and> failure (genRESTMethod fooGenerator (\<lambda>qp. []) ''Foo'' fooService unresolvedRPC) = None"
  by (simp add: pathParams_def getHTTPInfo_def genRESTMethod_def unaryRESTCall_def
        generateQueryString_def queryParams_def ok_def Let_def unresolvedRPC_def
        strings_ToUpper_def identifyTypes_def setupMethod_def foo_defs)

subsection \<open>Query parameters and the partition of the request\<close>

lemma queryParams_unfold:
  assumes "getHTTPInfo m = Some info" "h_body info \<noteq> ''*''" "queryParams g m = Inr qp"
  obtains request leafs where
    "typeAsMessage (descInfo_Type g) (m_InputType m) = Inr request"
    "getLeafs g request [lookupField g (m_InputType m) (h_body info)] = Inr leafs"
    "qp = queryParams_loop g request ((pathParams g m)(h_body info \<mapsto> emptyField)) leafs"
  using assms by (auto simp: queryParams_def Let_def split: sum.splits)

text \<open>
  C4. The claim: for every method with an HTTP annotation the path-parameter paths, the
  body-subtree paths and the query-parameter paths are pairwise disjoint, no query
  parameter is a path parameter or equal to or nested under the body selector, and
  their union with the force-excluded fields is the full leaf set of the input message.
  As amended, for a method whose body selector is not the whole request: no query
  parameter is a path parameter or the body selector; every query parameter is a
  non-message leaf of the input message, reached by a chain of message fields none of
  which is the body field; and every leaf of the input message found with the body
  field excluded is a query parameter, or a path parameter, or the body selector, or
  has a name that \<open>lookupField\<close> resolves on the request's simple name. (With the whole
  request as body there is no query parameter: see C10.) Nothing keeps a path parameter
  out of the body subtree.
\<close>

theorem queryParams_partition:
  assumes "getHTTPInfo m = Some info" and "h_body info \<noteq> ''*''"
    and "queryParams g m = Inr qp"
  shows "dom qp \<inter> dom (pathParams g m) = {}
       \<and> h_body info \<notin> dom qp
       \<and> (\<exists>request leafs.
             typeAsMessage (descInfo_Type g) (m_InputType m) = Inr request \<and>
             getLeafs g request [lookupField g (m_InputType m) (h_body info)] = Inr leafs \<and>
             (\<forall>k f. qp k = Some f \<longrightarrow>
                leafs k = Some f \<and> f_Type f \<noteq> TYPE_MESSAGE \<and>
                (\<exists>chain. leafChain g [lookupField g (m_InputType m) (h_body info)] []
                            (d_Field request) chain f \<and>
                         k = pathKey chain f \<and>
                         (\<forall>c \<in> set chain.
                            \<not> contains [lookupField g (m_InputType m) (h_body info)] c))) \<and>
             (\<forall>k f. leafs k = Some f \<longrightarrow>
                qp k = Some f \<or> k \<in> dom (pathParams g m) \<or> k = h_body info \<or>
                lookupField g (d_Name request) (f_Name f) \<noteq> None))"
proof -
  let ?ex = "[lookupField g (m_InputType m) (h_body info)]"
  from queryParams_unfold [OF assms] obtain request leafs where
    r: "typeAsMessage (descInfo_Type g) (m_InputType m) = Inr request" and
    l: "getLeafs g request ?ex = Inr leafs" and
    q: "qp = queryParams_loop g request ((pathParams g m)(h_body info \<mapsto> emptyField)) leafs"
    by blast
  have a: "dom qp \<inter> dom (pathParams g m) = {}"
    by (auto simp: q queryParams_loop_def split: option.splits if_splits)
  have b: "h_body info \<notin> dom qp"
    by (auto simp: q queryParams_loop_def split: option.splits if_splits)
  have c: "\<forall>k f. qp k = Some f \<longrightarrow>
                leafs k = Some f \<and> f_Type f \<noteq> TYPE_MESSAGE \<and>
                (\<exists>chain. leafChain g ?ex [] (d_Field request) chain f \<and> k = pathKey chain f \<and>
                         (\<forall>c \<in> set chain. \<not> contains ?ex c))"
  proof (intro allI impI)
    fix k f assume "qp k = Some f"
    then have lk: "leafs k = Some f"
      by (auto simp: q queryParams_loop_def split: option.splits if_splits)
    from recurse_values [OF l [unfolded getLeafs_def]] lk
    have nm: "f_Type f \<noteq> TYPE_MESSAGE" by simp
    from recurse_sound [OF l [unfolded getLeafs_def] lk] obtain chain where
      ch: "leafChain g ?ex [] (d_Field request) chain f" "k = pathKey chain f" by auto
    from leafChain_avoids [OF ch(1)] have "\<forall>c \<in> set chain. \<not> contains ?ex c" by auto
    with lk nm ch show "leafs k = Some f \<and> f_Type f \<noteq> TYPE_MESSAGE \<and>
                (\<exists>chain. leafChain g ?ex [] (d_Field request) chain f \<and> k = pathKey chain f \<and>
                         (\<forall>c \<in> set chain. \<not> contains ?ex c))" by blast
  qed
  have d: "\<forall>k f. leafs k = Some f \<longrightarrow>
                qp k = Some f \<or> k \<in> dom (pathParams g m) \<or> k = h_body info \<or>
                lookupField g (d_Name request) (f_Name f) \<noteq> None"
    by (auto simp: q queryParams_loop_def split: option.splits if_splits)
  from a b c d r l show ?thesis by blast
qed

theorem queryParams_partition_witness:
  "getHTTPInfo (setupMethod ''/kingdom/{kingdom}/phylum/{phylum}'' ''guess'')
     = Some \<lparr>h_verb = ''get'', h_url = ''/kingdom/{kingdom}/phylum/{phylum}'', h_body = ''guess''\<rparr>
   \<and> queryParams (testGenerator (identifyTypes [''kingdom'', ''phylum'', ''mass_kg'', ''guess'']))
        (setupMethod ''/kingdom/{kingdom}/phylum/{phylum}'' ''guess'')
     = Inr [''mass_kg'' \<mapsto> mkField 3 ''mass_kg'' TYPE_INT32 []]
   \<and> dom [''mass_kg'' \<mapsto> mkField 3 ''mass_kg'' TYPE_INT32 []]
       \<inter> dom (pathParams (testGenerator (identifyTypes [''kingdom'', ''phylum'', ''mass_kg'', ''guess'']))
                (setupMethod ''/kingdom/{kingdom}/phylum/{phylum}'' ''guess'')) = {}
   \<and> ''guess'' \<notin> dom [''mass_kg'' \<mapsto> mkField 3 ''mass_kg'' TYPE_INT32 []]"
proof -
  let ?G = "testGenerator (identifyTypes [''kingdom'', ''phylum'', ''mass_kg'', ''guess''])"
  let ?m = "setupMethod ''/kingdom/{kingdom}/phylum/{phylum}'' ''guess''"
  let ?info = "\<lparr>h_verb = ''get'', h_url = ''/kingdom/{kingdom}/phylum/{phylum}'', h_body = ''guess''\<rparr>"
  have i: "getHTTPInfo ?m = Some ?info"
    by (simp add: getHTTPInfo_def setupMethod_def)
  have b: "h_body ?info \<noteq> ''*''" by simp
  have q: "queryParams ?G ?m = Inr [''mass_kg'' \<mapsto> mkField 3 ''mass_kg'' TYPE_INT32 []]"
    apply (simp add: queryParams_def getHTTPInfo_def pathParams_def getLeafs_def
             handleLeaf_def fixture_defs)
    apply (rule ext)
    apply (simp add: queryParams_loop_def emptyField_def fixture_defs)
    done
  from queryParams_partition [OF i b q] i q show ?thesis by simp
qed

text \<open>
  The claim of C4 fails on an update-style binding, POST \<open>/v1/{mantle.mass_kg}\<close> with body
  \<open>mantle\<close> on the Squid of the tests: \<open>mantle.mass_kg\<close> is a path parameter inside the
  body subtree, and the excluded body field \<open>mantle\<close> is no leaf of the message.
\<close>

theorem path_parameter_inside_body:
  "getHTTPInfo (squidMethod ''/v1/{mantle.mass_kg}'' ''mantle'')
     = Some \<lparr>h_verb = ''post'', h_url = ''/v1/{mantle.mass_kg}'', h_body = ''mantle''\<rparr>
   \<and> pathParams (testGenerator molluscaTypes) (squidMethod ''/v1/{mantle.mass_kg}'' ''mantle'')
        ''mantle.mass_kg'' = Some (mkField 2 ''mass_kg'' TYPE_INT32 [])
   \<and> nestedUnder ''mantle'' ''mantle.mass_kg''
   \<and> leafAt (getLeafs (testGenerator molluscaTypes) complexMsg []) ''mantle'' = Inr None
   \<and> leafAt (queryParams (testGenerator molluscaTypes)
               (squidMethod ''/v1/{mantle.mass_kg}'' ''mantle'')) ''length_m''
        = Inr (Some (mkField 4 ''length_m'' TYPE_INT32 []))"
  by (simp add: getHTTPInfo_def squidMethod_def pathParams_def nestedUnder_def leafAt_def
        getLeafs_def handleLeaf_def queryParams_def queryParams_loop_def emptyField_def
        fixture_defs)


subsection \<open>The query string\<close>




lemma sort_enumeration:
  assumes "distinct ks" "set ks = A"
  shows "sort ks = sorted_list_of_set A"
proof -
  have "sorted_list_of_set (set ks) = sort (remdups ks)"
    by (rule sorted_list_of_set_sort_remdups)
  with assms show ?thesis by (simp add: distinct_remdups_id)
qed

text \<open>
  C8. For every method with at least one query parameter, whatever the order in which
  the keys of the map are delivered, the parameters are emitted in strictly ascending
  order of their paths (the order of strings by bytes), each path once; two generations
  that get the keys in different orders print the same text.
\<close>

theorem generateQueryString_sorted_order:
  assumes "queryParams g m = Inr qp"
    and "distinct (keysOf qp)" and "set (keysOf qp) = dom qp"
    and "distinct (keysOf' qp)" and "set (keysOf' qp) = dom qp"
    and "dom qp \<noteq> {}"
  shows \<open>generateQueryString g keysOf m =
           Inr ([Sprintf ''params := url.Values{}'' []] @
                concat (map (\<lambda>path. queryParamLines g path (the (qp path)))
                          (sorted_list_of_set (dom qp))) @
                [Sprintf [] [], Sprintf ''baseUrl.RawQuery = params.Encode()'' [], Sprintf [] []])
         \<and> sorted_wrt (<) (sorted_list_of_set (dom qp))
         \<and> set (sorted_list_of_set (dom qp)) = dom qp
         \<and> generateQueryString g keysOf' m = generateQueryString g keysOf m\<close>
proof -
  have fin: "finite (dom qp)" using assms(3) [symmetric] by simp
  have ne: "keysOf qp \<noteq> []" "keysOf' qp \<noteq> []"
  proof -
    show "keysOf qp \<noteq> []"
    proof
      assume "keysOf qp = []"
      then have "set (keysOf qp) = {}" by simp
      with assms(3,6) show False by metis
    qed
    show "keysOf' qp \<noteq> []"
    proof
      assume "keysOf' qp = []"
      then have "set (keysOf' qp) = {}" by simp
      with assms(5,6) show False by metis
    qed
  qed
  have s: "sort (keysOf qp) = sorted_list_of_set (dom qp)"
          "sort (keysOf' qp) = sorted_list_of_set (dom qp)"
    using assms(2-5) by (simp_all add: sort_enumeration)
  have m: "map (\<lambda>path. queryParamLines g path
                   (case qp path of None \<Rightarrow> emptyField | Some field \<Rightarrow> field))
             (sorted_list_of_set (dom qp))
         = map (\<lambda>path. queryParamLines g path (the (qp path))) (sorted_list_of_set (dom qp))"
    using fin by (intro map_cong refl) (auto simp: dom_def)
  have g1: \<open>generateQueryString g keysOf m =
           Inr ([Sprintf ''params := url.Values{}'' []] @
                concat (map (\<lambda>path. queryParamLines g path (the (qp path)))
                          (sorted_list_of_set (dom qp))) @
                [Sprintf [] [], Sprintf ''baseUrl.RawQuery = params.Encode()'' [], Sprintf [] []])\<close>
    using assms(1) ne(1) by (simp add: generateQueryString_def Let_def s(1) m)
  have g2: \<open>generateQueryString g keysOf' m =
           Inr ([Sprintf ''params := url.Values{}'' []] @
                concat (map (\<lambda>path. queryParamLines g path (the (qp path)))
                          (sorted_list_of_set (dom qp))) @
                [Sprintf [] [], Sprintf ''baseUrl.RawQuery = params.Encode()'' [], Sprintf [] []])\<close>
    using assms(1) ne(2) by (simp add: generateQueryString_def Let_def s(2) m)
  have st: "sorted_wrt (<) (sorted_list_of_set (dom qp))"
    using fin by (simp add: strict_sorted_iff)
  from g1 g2 st fin show ?thesis by simp
qed

theorem generateQueryString_sorted_order_witness:
  \<open>queryParams (testGenerator (identifyTypes [''mass_kg'', ''guess'', ''kingdom'']))
      (setupMethod ''/kingdom'' []) = Inr threeLeafs
   \<and> dom threeLeafs = {''mass_kg'', ''guess'', ''kingdom''}
   \<and> sorted_list_of_set (dom threeLeafs) = [''guess'', ''kingdom'', ''mass_kg'']
   \<and> generateQueryString (testGenerator (identifyTypes [''mass_kg'', ''guess'', ''kingdom'']))
        (\<lambda>qp. [''mass_kg'', ''kingdom'', ''guess'']) (setupMethod ''/kingdom'' [])
      = generateQueryString (testGenerator (identifyTypes [''mass_kg'', ''guess'', ''kingdom'']))
        (\<lambda>qp. [''kingdom'', ''guess'', ''mass_kg'']) (setupMethod ''/kingdom'' [])\<close>
proof -
  let ?G = "testGenerator (identifyTypes [''mass_kg'', ''guess'', ''kingdom''])"
  let ?m = "setupMethod ''/kingdom'' []"
  have q: "queryParams ?G ?m = Inr threeLeafs"
    apply (simp add: queryParams_def getHTTPInfo_def pathParams_def getLeafs_def
             handleLeaf_def fixture_defs)
    apply (rule ext)
    apply (simp add: queryParams_loop_def threeLeafs_def emptyField_def fixture_defs)
    done
  have d: "dom threeLeafs = {''mass_kg'', ''guess'', ''kingdom''}"
    by (auto simp: threeLeafs_def)
  have s: "sorted_list_of_set (dom threeLeafs) = [''guess'', ''kingdom'', ''mass_kg'']"
    by (simp add: d)
  from generateQueryString_sorted_order
         [OF q, of "\<lambda>qp. [''kingdom'', ''guess'', ''mass_kg'']"
                   "\<lambda>qp. [''mass_kg'', ''kingdom'', ''guess'']"] d
  have "generateQueryString ?G (\<lambda>qp. [''mass_kg'', ''kingdom'', ''guess'']) ?m
      = generateQueryString ?G (\<lambda>qp. [''kingdom'', ''guess'', ''mass_kg'']) ?m"
    by auto
  with q d s show ?thesis by simp
qed

subsection \<open>Methods without an HTTP annotation\<close>

text \<open>
  C10. For every method without options, pathParams and queryParams return the empty
  mapping and no error; the error that the method has no HTTP info comes from
  generateURLString and from the synthesizers of the unary, empty-response and paging
  calls (the last once the types and imports of the method are resolved).
  For every method whose body selector is \<open>*\<close>, queryParams returns the empty mapping.
\<close>

theorem classifiers_total_without_annotation:
  "(m_Options m = None \<longrightarrow>
      pathParams g m = Map.empty \<and> queryParams g m = Inr Map.empty \<and>
      generateURLString g m = Inl (MethodHasNoHTTPInfo (m_Name m)) \<and>
      failure (unaryRESTCall g keysOf servName m) = Some (MethodHasNoHTTPInfo (m_Name m)) \<and>
      failure (emptyUnaryRESTCall g keysOf servName m) = Some (MethodHasNoHTTPInfo (m_Name m)) \<and>
      (\<forall>inType outType inSpec outSpec.
         typeAsMessage (descInfo_Type g) (m_InputType m) = Inr inType \<and>
         typeAsMessage (descInfo_Type g) (m_OutputType m) = Inr outType \<and>
         importSpecType g (m_InputType m) = Inr inSpec \<and>
         importSpecType g (m_OutputType m) = Inr outSpec \<longrightarrow>
         failure (pagingRESTCall g keysOf servName m pf ps pt)
           = Some (MethodHasNoHTTPInfo (m_Name m))))
   \<and> (\<forall>info. getHTTPInfo m = Some info \<and> h_body info = ''*'' \<longrightarrow>
         queryParams g m = Inr Map.empty)"
  by (simp add: pathParams_def queryParams_def generateURLString_def getHTTPInfo_def
        unaryRESTCall_def emptyUnaryRESTCall_def pagingRESTCall_def failed_def)

theorem classifiers_total_without_annotation_witness:
  "m_Options noOptionsMethod = None
   \<and> pathParams (testGenerator (identifyTypes [''kingdom''])) noOptionsMethod = Map.empty
   \<and> queryParams (testGenerator (identifyTypes [''kingdom''])) noOptionsMethod = Inr Map.empty
   \<and> generateURLString (testGenerator (identifyTypes [''kingdom''])) noOptionsMethod
        = Inl (MethodHasNoHTTPInfo ''Identify'')
   \<and> getHTTPInfo (setupMethod ''/kingdom'' ''*'')
        = Some \<lparr>h_verb = ''get'', h_url = ''/kingdom'', h_body = ''*''\<rparr>
   \<and> queryParams (testGenerator (identifyTypes [''kingdom''])) (setupMethod ''/kingdom'' ''*'')
        = Inr Map.empty"
proof -
  have a: "m_Options noOptionsMethod = None" by (simp add: noOptionsMethod_def)
  have b: "getHTTPInfo (setupMethod ''/kingdom'' ''*'')
        = Some \<lparr>h_verb = ''get'', h_url = ''/kingdom'', h_body = ''*''\<rparr>"
    by (simp add: getHTTPInfo_def setupMethod_def)
  have n: "m_Name noOptionsMethod = ''Identify''" by (simp add: noOptionsMethod_def)
  from classifiers_total_without_annotation
         [of noOptionsMethod "testGenerator (identifyTypes [''kingdom''])" "\<lambda>qp. []" "''Foo''"]
       classifiers_total_without_annotation
         [of "setupMethod ''/kingdom'' ''*''" "testGenerator (identifyTypes [''kingdom''])" "\<lambda>qp. []" "''Foo''"]
       a b n
  show ?thesis by simp
qed

subsection \<open>Dispatch and the call synthesizers\<close>

text \<open>
  C1. genRESTMethod selects the synthesizer by the first test that holds, in the fixed
  order: long-running operation, empty output type, paging fields, client streaming,
  server streaming, and the unary call otherwise. A paginated method is given the
  paging call whatever its streaming flags. (An error of the detection of the paging
  fields, or of the iterator type, is returned as the method's error.)
\<close>

theorem genRESTMethod_first_match:
  "(isLRO g m \<longrightarrow>
      genRESTMethod g keysOf servName serv m = (lroRESTCall g servName m)\<lparr>lros := [m]\<rparr>)
   \<and> (\<not> isLRO g m \<and> m_OutputType m = emptyType g \<longrightarrow>
      genRESTMethod g keysOf servName serv m = emptyUnaryRESTCall g keysOf servName m)
   \<and> (\<forall>pf ps iter. \<not> isLRO g m \<and> m_OutputType m \<noteq> emptyType g \<and>
         getPagingFields g m = Inr (Some (pf, ps)) \<and> iterTypeOf g pf = Inr iter \<longrightarrow>
      genRESTMethod g keysOf servName serv m = pagingRESTCall g keysOf servName m pf ps iter)
   \<and> (\<not> isLRO g m \<and> m_OutputType m \<noteq> emptyType g \<and> getPagingFields g m = Inr None \<and>
       m_ClientStreaming m \<longrightarrow>
      genRESTMethod g keysOf servName serv m = noRequestStreamRESTCall g servName serv m)
   \<and> (\<not> isLRO g m \<and> m_OutputType m \<noteq> emptyType g \<and> getPagingFields g m = Inr None \<and>
       \<not> m_ClientStreaming m \<and> m_ServerStreaming m \<longrightarrow>
      genRESTMethod g keysOf servName serv m = serverStreamRESTCall g servName serv m)
   \<and> (\<not> isLRO g m \<and> m_OutputType m \<noteq> emptyType g \<and> getPagingFields g m = Inr None \<and>
       \<not> m_ClientStreaming m \<and> \<not> m_ServerStreaming m \<longrightarrow>
      genRESTMethod g keysOf servName serv m = unaryRESTCall g keysOf servName m)"
  by (simp add: genRESTMethod_def)

theorem genRESTMethod_first_match_witness:
  "\<not> isLRO fooGenerator (pagingRPC\<lparr>m_ServerStreaming := True\<rparr>)
   \<and> m_OutputType (pagingRPC\<lparr>m_ServerStreaming := True\<rparr>) \<noteq> emptyType fooGenerator
   \<and> getPagingFields fooGenerator (pagingRPC\<lparr>m_ServerStreaming := True\<rparr>)
        = Inr (Some (foosField, pageSizeField))
   \<and> iterTypeOf fooGenerator foosField
        = Inr \<lparr>iterTypeName = ''FooIterator'', elemTypeName = ''*foopb.Foo''\<rparr>
   \<and> m_ServerStreaming (pagingRPC\<lparr>m_ServerStreaming := True\<rparr>)
   \<and> genRESTMethod fooGenerator (\<lambda>qp. []) ''Foo'' fooService (pagingRPC\<lparr>m_ServerStreaming := True\<rparr>)
        = pagingRESTCall fooGenerator (\<lambda>qp. []) ''Foo'' (pagingRPC\<lparr>m_ServerStreaming := True\<rparr>)
            foosField pageSizeField \<lparr>iterTypeName = ''FooIterator'', elemTypeName = ''*foopb.Foo''\<rparr>"
proof -
  let ?m = "pagingRPC\<lparr>m_ServerStreaming := True\<rparr>"
  have h: "\<not> isLRO fooGenerator ?m" "m_OutputType ?m \<noteq> emptyType fooGenerator"
          "getPagingFields fooGenerator ?m = Inr (Some (foosField, pageSizeField))"
          "iterTypeOf fooGenerator foosField
             = Inr \<lparr>iterTypeName = ''FooIterator'', elemTypeName = ''*foopb.Foo''\<rparr>"
          "m_ServerStreaming ?m"
    by (simp_all add: fooGenerator_def testGenerator_def pagingRPC_def fooMethod_def)
  from genRESTMethod_first_match [of fooGenerator ?m "\<lambda>qp. []" "''Foo''" fooService] h
  show ?thesis by simp
qed



text \<open>
  C7. The claim: for every HTTP-bound method of every call shape (plain unary,
  empty-response, paginated, long-running, custom polling), a non-empty body selector
  with the verb GET or DELETE makes the generation of the method fail with an error
  that identifies the method. As amended: this holds for the methods synthesized by
  unaryRESTCall (plain unary, and with it the custom operations) and emptyUnaryRESTCall:
  their generation fails, and when the types and imports of the method resolve the
  error is the invalid use of a body, naming the method, with only the signature line
  printed. A long-running method is given the stub that reports the call unsupported,
  for which the binding is not read.
\<close>

theorem body_with_get_or_delete_rejected:
  assumes "getHTTPInfo m = Some info" and "h_body info \<noteq> []"
    and "h_verb info = ''get'' \<or> h_verb info = ''delete''"
  shows \<open>failure (unaryRESTCall g keysOf servName m) \<noteq> None
       \<and> failure (emptyUnaryRESTCall g keysOf servName m) \<noteq> None
       \<and> (\<forall>inSpec outSpec inTypeName outTypeName.
             importSpecType g (m_InputType m) = Inr inSpec \<and>
             importSpecType g (m_OutputType m) = Inr outSpec \<and>
             typeGetName (descInfo_Type g) (m_InputType m) = Inr inTypeName \<and>
             typeGetName (descInfo_Type g) (m_OutputType m) = Inr outTypeName \<longrightarrow>
             unaryRESTCall g keysOf servName m =
               failed [Sprintf ''func (c *%s) %s(ctx context.Context, req *%s.%s, opts ...gax.CallOption) (%s, error) {''
                         [Str (lowcaseRestClientName g servName), Str (m_Name m),
                          Str (i_Name inSpec), Str inTypeName, Str (returnType g m)]]
                      [] (InvalidUseOfBody (m_Name m)))
       \<and> (\<forall>inSpec inTypeName.
             importSpecType g (m_InputType m) = Inr inSpec \<and>
             typeGetName (descInfo_Type g) (m_InputType m) = Inr inTypeName \<longrightarrow>
             emptyUnaryRESTCall g keysOf servName m =
               failed [Sprintf ''func (c *%s) %s(ctx context.Context, req *%s.%s, opts ...gax.CallOption) error {''
                         [Str (lowcaseRestClientName g servName), Str (m_Name m),
                          Str (i_Name inSpec), Str inTypeName]]
                      [] (InvalidUseOfBody (m_Name m)))
       \<and> (\<not> isLRO g m \<and>
            (m_OutputType m = emptyType g \<or>
             getPagingFields g m = Inr None \<and> \<not> m_ClientStreaming m \<and> \<not> m_ServerStreaming m) \<longrightarrow>
            failure (genRESTMethod g keysOf servName serv m) \<noteq> None)\<close>
proof -
  have v: "strings_ToUpper (h_verb info) = ''GET'' \<or> strings_ToUpper (h_verb info) = ''DELETE''"
    using assms(3) by (auto simp: strings_ToUpper_def)
  have u: "failure (unaryRESTCall g keysOf servName m) \<noteq> None"
    using assms(1,2) v
    by (auto simp: unaryRESTCall_def failed_def Let_def split: sum.splits)
  have e: "failure (emptyUnaryRESTCall g keysOf servName m) \<noteq> None"
    using assms(1,2) v
    by (auto simp: emptyUnaryRESTCall_def failed_def Let_def split: sum.splits)
  have u': \<open>\<forall>inSpec outSpec inTypeName outTypeName.
             importSpecType g (m_InputType m) = Inr inSpec \<and>
             importSpecType g (m_OutputType m) = Inr outSpec \<and>
             typeGetName (descInfo_Type g) (m_InputType m) = Inr inTypeName \<and>
             typeGetName (descInfo_Type g) (m_OutputType m) = Inr outTypeName \<longrightarrow>
             unaryRESTCall g keysOf servName m =
               failed [Sprintf ''func (c *%s) %s(ctx context.Context, req *%s.%s, opts ...gax.CallOption) (%s, error) {''
                         [Str (lowcaseRestClientName g servName), Str (m_Name m),
                          Str (i_Name inSpec), Str inTypeName, Str (returnType g m)]]
                      [] (InvalidUseOfBody (m_Name m))\<close>
    using assms(1,2) v by (auto simp: unaryRESTCall_def Let_def)
  have e': \<open>\<forall>inSpec inTypeName.
             importSpecType g (m_InputType m) = Inr inSpec \<and>
             typeGetName (descInfo_Type g) (m_InputType m) = Inr inTypeName \<longrightarrow>
             emptyUnaryRESTCall g keysOf servName m =
               failed [Sprintf ''func (c *%s) %s(ctx context.Context, req *%s.%s, opts ...gax.CallOption) error {''
                         [Str (lowcaseRestClientName g servName), Str (m_Name m),
                          Str (i_Name inSpec), Str inTypeName]]
                      [] (InvalidUseOfBody (m_Name m))\<close>
    using assms(1,2) v by (auto simp: emptyUnaryRESTCall_def Let_def)
  have d: "\<not> isLRO g m \<and>
            (m_OutputType m = emptyType g \<or>
             getPagingFields g m = Inr None \<and> \<not> m_ClientStreaming m \<and> \<not> m_ServerStreaming m) \<longrightarrow>
            failure (genRESTMethod g keysOf servName serv m) \<noteq> None"
    using u e by (auto simp: genRESTMethod_def)
  from u e u' e' d show ?thesis by blast
qed

theorem body_with_get_or_delete_rejected_witness:
  \<open>getHTTPInfo getWithBody = Some \<lparr>h_verb = ''get'', h_url = ''/v1/foo'', h_body = ''*''\<rparr>
   \<and> genRESTMethod fooGenerator (\<lambda>qp. []) ''Foo'' fooService getWithBody
       = failed [Sprintf ''func (c *%s) %s(ctx context.Context, req *%s.%s, opts ...gax.CallOption) (%s, error) {''
                   [Str ''FooRESTClient'', Str ''UnaryRPC'', Str ''foopb'', Str ''Foo'',
                    Str ''*foopb.Foo'']]
                [] (InvalidUseOfBody ''UnaryRPC'')\<close>
proof -
  let ?info = "\<lparr>h_verb = ''get'', h_url = ''/v1/foo'', h_body = ''*''\<rparr>"
  have i: "getHTTPInfo getWithBody = Some ?info"
    by (simp add: getHTTPInfo_def getWithBody_def fooMethod_def)
  have b: "h_body ?info \<noteq> []" by simp
  have v: "h_verb ?info = ''get'' \<or> h_verb ?info = ''delete''" by simp
  have r: "genRESTMethod fooGenerator (\<lambda>qp. []) ''Foo'' fooService getWithBody
             = unaryRESTCall fooGenerator (\<lambda>qp. []) ''Foo'' getWithBody"
    by (simp add: genRESTMethod_def getWithBody_def foo_defs)
  have l: "importSpecType fooGenerator (m_InputType getWithBody)
             = Inr \<lparr>i_Name = ''foopb'', i_Path = ''cloud/foo/v1''\<rparr>"
          "importSpecType fooGenerator (m_OutputType getWithBody)
             = Inr \<lparr>i_Name = ''foopb'', i_Path = ''cloud/foo/v1''\<rparr>"
          "typeGetName (descInfo_Type fooGenerator) (m_InputType getWithBody) = Inr ''Foo''"
          "typeGetName (descInfo_Type fooGenerator) (m_OutputType getWithBody) = Inr ''Foo''"
    by (simp_all add: getWithBody_def foo_defs)
  have n: "lowcaseRestClientName fooGenerator ''Foo'' = ''FooRESTClient''"
          "m_Name getWithBody = ''UnaryRPC''" "returnType fooGenerator getWithBody = ''*foopb.Foo''"
    by (simp_all add: lowcaseRestClientName_def getWithBody_def foo_defs)
  from body_with_get_or_delete_rejected [OF i b v, of fooGenerator "\<lambda>qp. []" "''Foo''" fooService]
       l n i r
  show ?thesis by simp
qed

text \<open>
  The claim of C7 fails on a long-running method bound to GET with a body: the stub is
  printed and no error is returned.
\<close>

theorem long_running_stub_ignores_body:
  \<open>getHTTPInfo (setupMethod ''/kingdom'' ''guess'')
     = Some \<lparr>h_verb = ''get'', h_url = ''/kingdom'', h_body = ''guess''\<rparr>
   \<and> genRESTMethod ((testGenerator (identifyTypes [''mass_kg'', ''guess'']))\<lparr>isLRO := (\<lambda>m. True)\<rparr>)
        (\<lambda>qp. [''mass_kg'']) ''Foo'' fooService (setupMethod ''/kingdom'' ''guess'')
     = \<lparr>printed =
          [Sprintf ''func (c *%s) %s(ctx context.Context, req *%s.%s, opts ...gax.CallOption) (*%s, error) {''
             [Str ''FooRESTClient'', Str ''Identify'', Str ''foopb'', Str ''IdentifyRequest'',
              Str ''IdentifyOperation''],
           Sprintf ''    return nil, fmt.Errorf("%s not yet supported for REST clients")'' [Str ''Identify''],
           Sprintf ''}'' [],
           Sprintf [] []],
        imported = [\<lparr>i_Name = [], i_Path = ''cloud.google.com/go/longrunning''\<rparr>],
        lros = [setupMethod ''/kingdom'' ''guess''],
        failure = None\<rparr>\<close>
  by (simp add: genRESTMethod_def lroRESTCall_def lowcaseRestClientName_def ok_def importPath_def
        getHTTPInfo_def fixture_defs)

text \<open>
  pagingRESTCall has no such check either: the paged method of the tests, bound to GET
  with the whole request as body, is generated without an error.
\<close>

lemma paging_marshals_body_for_get:
  \<open>failure (pagingRESTCall fooGenerator (\<lambda>qp. []) ''Foo''
      (fooMethod ''PagingRPC'' ''.google.cloud.foo.v1.PagedFooRequest''
         ''.google.cloud.foo.v1.PagedFooResponse'' (HttpRule_Get ''/v1/foo'') ''*'')
      foosField pageSizeField \<lparr>iterTypeName = ''FooIterator'', elemTypeName = ''*foopb.Foo''\<rparr>)
     = None\<close>
  by (simp add: pagingRESTCall_def generateQueryString_def queryParams_def getHTTPInfo_def
        ok_def Let_def foo_defs)

end
